theory Spec2Isabelle
  imports Complex_Main "HOL-Library.Char_ord" "HOL-Library.List_Lexorder"
begin

section \<open>Job records\<close>

text \<open>
  The embedding follows \<^verbatim>\<open>backend/src/services/queue_manager.py\<close>. A naive UTC
  datetime (\<^verbatim>\<open>datetime.utcnow()\<close>) and a reading of \<^verbatim>\<open>time.time()\<close> are seconds since
  the epoch as a real number; every operation takes the reading \<open>now\<close> as an argument.
  \<^verbatim>\<open>datetime.timestamp()\<close> reads a naive datetime in the local zone of the process, so
  every operation that calls it also takes \<open>tz\<close>, the number of seconds by which that zone
  is ahead of UTC. The retry delay is computed in binary64 arithmetic, which is modelled
  with its rounding and its overflow; an operation that can raise returns the exception
  as a value.
\<close>

datatype JobStatus = PENDING | QUEUED | PROCESSING | COMPLETED | FAILED | CANCELLED | RETRYING

datatype JobPriority = LOW | NORMAL | HIGH | URGENT

fun priority_value :: "JobPriority \<Rightarrow> int" where
  "priority_value LOW = 1"
| "priority_value NORMAL = 2"
| "priority_value HIGH = 3"
| "priority_value URGENT = 4"

text \<open>Payload values: the helpers of the module store strings and integers.\<close>

datatype pval = PStr string | PInt int

type_synonym payload = "(string \<times> pval) list"

definition payload_get :: "payload \<Rightarrow> string \<Rightarrow> pval option" where
  \<comment> \<open>\<^verbatim>\<open>payload.get(key)\<close>\<close>
  "payload_get p k = map_of p k"

fun truthy :: "pval \<Rightarrow> bool" where
  \<comment> \<open>Python truth value\<close>
  "truthy (PStr s) = (s \<noteq> [])"
| "truthy (PInt i) = (i \<noteq> 0)"

definition digit_char :: "nat \<Rightarrow> char" where
  "digit_char n = ''0123456789'' ! (n mod 10)"

fun str_nat :: "nat \<Rightarrow> string" where
  "str_nat n = (if n < 10 then [digit_char n] else str_nat (n div 10) @ [digit_char n])"

declare str_nat.simps [simp del]

fun str_of :: "pval \<Rightarrow> string" where
  \<comment> \<open>\<^verbatim>\<open>str(v)\<close>\<close>
  "str_of (PStr s) = s"
| "str_of (PInt i) = (if i < 0 then CHR ''-'' # str_nat (nat (- i)) else str_nat (nat i))"

record QueueJob =
  jid :: string
  job_type :: string
  payload :: payload
  priority :: JobPriority
  status :: JobStatus
  created_at :: real
  scheduled_at :: real
  started_at :: "real option"
  completed_at :: "real option"
  retry_count :: int
  max_retries :: int
  retry_delay :: int
  idempotency_key :: string
  error_message :: "string option"
  result :: "payload option"

text \<open>
  \<^verbatim>\<open>_generate_idempotency_key\<close>: the first 16 hex digits of the SHA-256 of
  \<^verbatim>\<open>f"{job_type}:{json.dumps(payload, sort_keys=True)}"\<close>. Sorting the keys is
  modelled; the rendering of a key-sorted dictionary (\<open>dumps\<close>) and the digest
  (\<open>sha256_hex\<close>) are library functions and stay parameters.
\<close>

definition sort_keys :: "payload \<Rightarrow> payload" where
  "sort_keys p = sort_key fst p"

definition generate_idempotency_key ::
    "(payload \<Rightarrow> string) \<Rightarrow> (string \<Rightarrow> string) \<Rightarrow> string \<Rightarrow> payload \<Rightarrow> string" where
  "generate_idempotency_key dumps sha256_hex jt pl =
     (let content = jt @ '':'' @ dumps (sort_keys pl)
      in take 16 (sha256_hex content))"

text \<open>
  The constructor with \<^verbatim>\<open>__post_init__\<close>: \<open>sched\<close> and \<open>key\<close> are the optional
  \<^verbatim>\<open>scheduled_at\<close> and \<^verbatim>\<open>idempotency_key\<close> arguments, the other fields take their
  defaults.
\<close>

definition new_QueueJob ::
    "(payload \<Rightarrow> string) \<Rightarrow> (string \<Rightarrow> string) \<Rightarrow> real \<Rightarrow> string \<Rightarrow> string \<Rightarrow> payload
      \<Rightarrow> JobPriority \<Rightarrow> real option \<Rightarrow> string option \<Rightarrow> QueueJob" where
  "new_QueueJob dumps sha256_hex now i jt pl pr sched key =
     \<lparr> jid = i, job_type = jt, payload = pl, priority = pr, status = PENDING,
       created_at = now,
       scheduled_at = (case sched of None \<Rightarrow> now | Some t \<Rightarrow> t),
       started_at = None, completed_at = None,
       retry_count = 0, max_retries = 3, retry_delay = 60,
       idempotency_key =
         (case key of None \<Rightarrow> generate_idempotency_key dumps sha256_hex jt pl | Some k \<Rightarrow> k),
       error_message = None, result = None \<rparr>"

definition create_post_job ::
    "(payload \<Rightarrow> string) \<Rightarrow> (string \<Rightarrow> string) \<Rightarrow> real \<Rightarrow> string \<Rightarrow> int \<Rightarrow> string \<Rightarrow> int
      \<Rightarrow> real option \<Rightarrow> JobPriority \<Rightarrow> QueueJob" where
  \<comment> \<open>\<open>uuid\<close> is the value of \<^verbatim>\<open>str(uuid.uuid4())\<close>\<close>
  "create_post_job dumps sha256_hex now uuid unified_post_id platform user_id scheduled_time pr =
     new_QueueJob dumps sha256_hex now uuid ''social_media_post''
       [(''unified_post_id'', PInt unified_post_id), (''platform'', PStr platform),
        (''user_id'', PInt user_id)]
       pr (Some (case scheduled_time of None \<Rightarrow> now | Some t \<Rightarrow> t)) None"

section \<open>The store\<close>

text \<open>
  The module keeps all its state in Redis; the commands it calls are modelled with the
  semantics Redis gives them. A sorted set is a list of (member, score) pairs in which
  \<open>zadd\<close> keeps one entry per member. Entries are ordered by score and, for equal scores,
  by member (bytewise); \<open>zpopmax\<close> takes the greatest entry and \<open>zrangebyscore\<close> lists
  the members with a score in the closed interval in ascending order. The two hashes
  (\<^verbatim>\<open>jobs\<close>, \<^verbatim>\<open>idempotency\<close>) are maps; a stored job is the record itself, the JSON
  round trip of \<^verbatim>\<open>to_dict\<close> and \<^verbatim>\<open>from_dict\<close> being the identity on it.
\<close>

type_synonym zset = "(string \<times> real) list"

definition zadd :: "zset \<Rightarrow> string \<Rightarrow> real \<Rightarrow> zset" where
  "zadd z m sc = (m, sc) # filter (\<lambda>e. fst e \<noteq> m) z"

definition zrem :: "zset \<Rightarrow> string \<Rightarrow> zset" where
  "zrem z m = filter (\<lambda>e. fst e \<noteq> m) z"

definition zscore :: "zset \<Rightarrow> string \<Rightarrow> real option" where
  "zscore z m = map_of z m"

fun zle :: "string \<times> real \<Rightarrow> string \<times> real \<Rightarrow> bool" where
  "zle (m1, s1) (m2, s2) = (s1 < s2 \<or> (s1 = s2 \<and> m1 \<le> m2))"

fun zinsert :: "string \<times> real \<Rightarrow> zset \<Rightarrow> zset" where
  "zinsert e [] = [e]"
| "zinsert e (x # xs) = (if zle e x then e # x # xs else x # zinsert e xs)"

definition zsorted :: "zset \<Rightarrow> zset" where
  "zsorted z = foldr zinsert z []"

definition in_range :: "real \<Rightarrow> real \<Rightarrow> string \<times> real \<Rightarrow> bool" where
  "in_range lo hi e = (lo \<le> snd e \<and> snd e \<le> hi)"

definition zrangebyscore :: "zset \<Rightarrow> real \<Rightarrow> real \<Rightarrow> string list" where
  "zrangebyscore z lo hi = map fst (zsorted (filter (in_range lo hi) z))"

definition zremrangebyscore :: "zset \<Rightarrow> real \<Rightarrow> real \<Rightarrow> zset" where
  "zremrangebyscore z lo hi = filter (\<lambda>e. \<not> in_range lo hi e) z"

fun zmax :: "string \<times> real \<Rightarrow> zset \<Rightarrow> string \<times> real" where
  "zmax e [] = e"
| "zmax e (x # xs) = zmax (if zle e x then x else e) xs"

definition zpopmax :: "zset \<Rightarrow> ((string \<times> real) \<times> zset) option" where
  "zpopmax z =
     (case z of
        [] \<Rightarrow> None
      | e # es \<Rightarrow> (let m = zmax e es in Some (m, zrem z (fst m))))"

text \<open>
  The counters of the rate limiter are string keys with an optional expiry (an absolute
  time); a key is gone once its expiry is reached. \<open>redis_ttl\<close> is \<open>-2\<close> for a missing
  key, \<open>-1\<close> for a key without expiry, and otherwise the remaining time rounded to the
  nearest second, as the \<^verbatim>\<open>TTL\<close> command reports it.
\<close>

type_synonym kvstore = "string \<rightharpoonup> (int \<times> real option)"

definition redis_get :: "kvstore \<Rightarrow> real \<Rightarrow> string \<Rightarrow> int option" where
  "redis_get kv now k =
     (case kv k of
        None \<Rightarrow> None
      | Some (v, None) \<Rightarrow> Some v
      | Some (v, Some e) \<Rightarrow> (if now < e then Some v else None))"

definition redis_setex :: "kvstore \<Rightarrow> real \<Rightarrow> string \<Rightarrow> int \<Rightarrow> int \<Rightarrow> kvstore" where
  "redis_setex kv now k seconds v = kv(k \<mapsto> (v, Some (now + of_int seconds)))"

definition redis_incr :: "kvstore \<Rightarrow> real \<Rightarrow> string \<Rightarrow> kvstore" where
  "redis_incr kv now k =
     (case kv k of
        None \<Rightarrow> kv(k \<mapsto> (1, None))
      | Some (v, None) \<Rightarrow> kv(k \<mapsto> (v + 1, None))
      | Some (v, Some e) \<Rightarrow> (if now < e then kv(k \<mapsto> (v + 1, Some e)) else kv(k \<mapsto> (1, None))))"

definition redis_ttl :: "kvstore \<Rightarrow> real \<Rightarrow> string \<Rightarrow> int" where
  "redis_ttl kv now k =
     (case kv k of
        None \<Rightarrow> - 2
      | Some (v, None) \<Rightarrow> - 1
      | Some (v, Some e) \<Rightarrow> (if now < e then \<lfloor>(e - now) + 1 / 2\<rfloor> else - 2))"

record QueueState =
  jobs :: "string \<rightharpoonup> QueueJob"
  idempotency :: "string \<rightharpoonup> string"
  pending_queue :: zset
  processing_queue :: zset
  completed_queue :: zset
  failed_queue :: zset
  retry_queue :: zset
  scheduled_queue :: zset
  rate_keys :: kvstore

definition empty_state :: QueueState where
  "empty_state =
     \<lparr> jobs = Map.empty, idempotency = Map.empty, pending_queue = [], processing_queue = [],
       completed_queue = [], failed_queue = [], retry_queue = [], scheduled_queue = [],
       rate_keys = Map.empty \<rparr>"

definition py_int :: "real \<Rightarrow> int" where
  \<comment> \<open>\<^verbatim>\<open>int(x)\<close> truncates towards zero\<close>
  "py_int x = (if 0 \<le> x then \<lfloor>x\<rfloor> else \<lceil>x\<rceil>)"

section \<open>Exceptions, binary64 numbers and datetimes\<close>

text \<open>
  The one exception that the arithmetic of the module raises is \<^verbatim>\<open>OverflowError\<close>: from
  the conversion of an integer that is too large for a float, from \<^verbatim>\<open>int()\<close> of an
  infinite float, and from \<^verbatim>\<open>timedelta\<close> and \<^verbatim>\<open>datetime\<close> values out of range.
\<close>

datatype error = OverflowError

text \<open>
  A finite binary64 number is a pair \<open>(m, e)\<close> of integers with
  the value \<open>m \<times> 2^e\<close>. \<open>round64 m e\<close> rounds the exact number \<open>m \<times> 2^e\<close> to the nearest
  binary64 number, ties to even: at most 53 significant bits are kept and the exponent of
  the last bit is at least -1074. The result is \<open>None\<close> when the rounded number is
  \<open>2^1024\<close> or more in magnitude, which is where the conversion from an integer raises
  and a product becomes infinite.
\<close>

type_synonym binary64 = "int \<times> int"

definition pow2 :: "int \<Rightarrow> real" where
  \<comment> \<open>\<^verbatim>\<open>2 ** e\<close> as a real number\<close>
  "pow2 e = (if 0 \<le> e then 2 ^ nat e else 1 / 2 ^ nat (- e))"

definition valof :: "binary64 \<Rightarrow> real" where
  "valof x = of_int (fst x) * pow2 (snd x)"

fun bit_length :: "nat \<Rightarrow> nat" where
  "bit_length n = (if n = 0 then 0 else Suc (bit_length (n div 2)))"

declare bit_length.simps [simp del]

definition round_half_even :: "int \<Rightarrow> nat \<Rightarrow> int" where
  \<comment> \<open>\<open>a / 2^s\<close> rounded to the nearest integer, ties to even, for \<open>a \<ge> 0\<close>\<close>
  "round_half_even a s =
     (let q = a div 2 ^ s; r = a mod 2 ^ s
      in if 2 ^ s < 2 * r \<or> (2 * r = 2 ^ s \<and> odd q) then q + 1 else q)"

definition round64 :: "int \<Rightarrow> int \<Rightarrow> binary64 option" where
  "round64 m e =
     (let a = \<bar>m\<bar>;
          s = nat (max (int (bit_length (nat a)) - 53) (- 1074 - e));
          q = round_half_even a s;
          e' = e + int s
      in if q \<noteq> 0 \<and> 1024 < int (bit_length (nat q)) + e' then None
         else Some (sgn m * q, e'))"

definition float_of_int :: "int \<Rightarrow> error + binary64" where
  \<comment> \<open>the conversion of an \<^verbatim>\<open>int\<close> operand to \<^verbatim>\<open>float\<close>\<close>
  "float_of_int n = (case round64 n 0 of None \<Rightarrow> Inl OverflowError | Some x \<Rightarrow> Inr x)"

definition float_mul :: "binary64 \<Rightarrow> binary64 \<Rightarrow> binary64 option" where
  \<comment> \<open>the product of two floats; \<open>None\<close> is an infinite result\<close>
  "float_mul x y = round64 (fst x * fst y) (snd x + snd y)"

definition int_of_float :: "binary64 \<Rightarrow> int" where
  \<comment> \<open>\<^verbatim>\<open>int(x)\<close> of a finite float truncates towards zero\<close>
  "int_of_float x =
     (if 0 \<le> snd x then fst x * 2 ^ nat (snd x)
      else sgn (fst x) * (\<bar>fst x\<bar> div 2 ^ nat (- snd x)))"

definition drawn_jitter :: "binary64 \<Rightarrow> bool" where
  \<comment> \<open>the values that \<^verbatim>\<open>random.uniform(0.75, 1.25)\<close> can return\<close>
  "drawn_jitter j =
     (0 \<le> fst j \<and> fst j < 2 ^ 53 \<and> - 1074 \<le> snd j \<and> 3 / 4 \<le> valof j \<and> valof j \<le> 5 / 4)"

definition timestamp :: "real \<Rightarrow> real \<Rightarrow> real" where
  \<comment> \<open>\<^verbatim>\<open>dt.timestamp()\<close> of a naive datetime: \<open>dt\<close> is read as a local time of the process,
      whose zone is \<open>tz\<close> seconds ahead of UTC\<close>
  "timestamp tz dt = dt - tz"

definition add_seconds :: "real \<Rightarrow> int \<Rightarrow> error + real" where
  \<comment> \<open>\<^verbatim>\<open>dt + timedelta(seconds=n)\<close>: a \<^verbatim>\<open>timedelta\<close> holds at most 999999999 days either
      way, a \<^verbatim>\<open>datetime\<close> the years 1 to 9999\<close>
  "add_seconds dt n =
     (if n div 86400 < - 999999999 \<or> 999999999 < n div 86400 then Inl OverflowError
      else if dt + of_int n < - 62135596800 \<or> 253402300800 \<le> dt + of_int n
           then Inl OverflowError
      else Inr (dt + of_int n))"

section \<open>Rate limiter\<close>

definition limits :: "pval \<rightharpoonup> int \<times> int" where
  \<comment> \<open>platform \<open>\<mapsto>\<close> (requests, window)\<close>
  "limits = map_of
     [(PStr ''twitter'', (300, 900)),
      (PStr ''instagram'', (200, 3600)),
      (PStr ''facebook'', (600, 3600)),
      (PStr ''linkedin'', (100, 3600))]"

definition rate_key :: "pval \<Rightarrow> string \<Rightarrow> string" where
  "rate_key platform user_id = ''rate_limit:'' @ str_of platform @ '':'' @ user_id"

definition is_allowed :: "real \<Rightarrow> pval \<Rightarrow> string \<Rightarrow> kvstore \<Rightarrow> bool \<times> kvstore" where
  "is_allowed now platform user_id kv =
     (case limits platform of
        None \<Rightarrow> (True, kv)
      | Some (requests, window) \<Rightarrow>
          (let key = rate_key platform user_id in
           case redis_get kv now key of
             None \<Rightarrow> (True, redis_setex kv now key window 1)
           | Some current_count \<Rightarrow>
               if current_count \<ge> requests then (False, kv)
               else (True, redis_incr kv now key)))"

definition get_reset_time :: "real \<Rightarrow> pval \<Rightarrow> string \<Rightarrow> kvstore \<Rightarrow> real option" where
  "get_reset_time now platform user_id kv =
     (case limits platform of
        None \<Rightarrow> None
      | Some _ \<Rightarrow>
          (let key = rate_key platform user_id; ttl = redis_ttl kv now key in
           if ttl > 0 then Some (now + of_int ttl) else None))"

section \<open>Queue manager\<close>

definition get_job :: "QueueState \<Rightarrow> string \<Rightarrow> QueueJob option" where
  "get_job s job_id = jobs s job_id"

definition update_job :: "QueueJob \<Rightarrow> QueueState \<Rightarrow> QueueState" where
  "update_job job s = s\<lparr>jobs := (jobs s)(jid job \<mapsto> job)\<rparr>"

definition pending_score :: "real \<Rightarrow> QueueJob \<Rightarrow> real" where
  \<comment> \<open>\<^verbatim>\<open>job.priority.value * 1000 + int(time.time())\<close>\<close>
  "pending_score now job = of_int (priority_value (priority job) * 1000 + py_int now)"

definition enqueue_new :: "real \<Rightarrow> real \<Rightarrow> QueueJob \<Rightarrow> QueueState \<Rightarrow> string \<times> QueueState" where
  \<comment> \<open>\<^verbatim>\<open>enqueue\<close> after the idempotency check: store the job and the mapping, then route\<close>
  "enqueue_new now tz job s =
     (let s1 = s\<lparr>jobs := (jobs s)(jid job \<mapsto> job)\<rparr>;
          s2 = s1\<lparr>idempotency := (idempotency s1)(idempotency_key job \<mapsto> jid job)\<rparr>
      in if scheduled_at job \<le> now
         then (jid job, s2\<lparr>pending_queue := zadd (pending_queue s2) (jid job) (pending_score now job)\<rparr>)
         else (jid job,
               s2\<lparr>scheduled_queue :=
                    zadd (scheduled_queue s2) (jid job) (timestamp tz (scheduled_at job))\<rparr>))"

definition enqueue :: "real \<Rightarrow> real \<Rightarrow> QueueJob \<Rightarrow> QueueState \<Rightarrow> string \<times> QueueState" where
  \<comment> \<open>\<^verbatim>\<open>if existing_job_id:\<close> holds for a stored id that is not the empty string\<close>
  "enqueue now tz job s =
     (case idempotency s (idempotency_key job) of
        None \<Rightarrow> enqueue_new now tz job s
      | Some existing_job_id \<Rightarrow>
          if existing_job_id \<noteq> [] then (existing_job_id, s) else enqueue_new now tz job s)"

definition promote_scheduled :: "real \<Rightarrow> string \<Rightarrow> QueueState \<Rightarrow> QueueState" where
  \<comment> \<open>body of the loop over \<^verbatim>\<open>ready_jobs\<close>\<close>
  "promote_scheduled now job_id s =
     (case get_job s job_id of
        None \<Rightarrow> s
      | Some job \<Rightarrow>
          s\<lparr>pending_queue := zadd (pending_queue s) job_id (pending_score now job),
            scheduled_queue := zrem (scheduled_queue s) job_id\<rparr>)"

definition promote_retry :: "real \<Rightarrow> string \<Rightarrow> QueueState \<Rightarrow> QueueState" where
  \<comment> \<open>body of the loop over \<^verbatim>\<open>ready_retries\<close>\<close>
  "promote_retry now job_id s =
     (case get_job s job_id of
        None \<Rightarrow> s
      | Some job \<Rightarrow>
          (let job' = job\<lparr>status := PENDING\<rparr>;
               s1 = update_job job' s
           in s1\<lparr>pending_queue := zadd (pending_queue s1) job_id (pending_score now job'),
                 retry_queue := zrem (retry_queue s1) job_id\<rparr>))"

definition move_scheduled_jobs :: "real \<Rightarrow> QueueState \<Rightarrow> QueueState" where
  "move_scheduled_jobs now s =
     (let ready_jobs = zrangebyscore (scheduled_queue s) 0 now;
          s1 = fold (promote_scheduled now) ready_jobs s;
          ready_retries = zrangebyscore (retry_queue s1) 0 now
      in fold (promote_retry now) ready_retries s1)"

definition dequeue :: "real \<Rightarrow> QueueState \<Rightarrow> QueueJob option \<times> QueueState" where
  "dequeue now s =
     (let s1 = move_scheduled_jobs now s in
      case zpopmax (pending_queue s1) of
        None \<Rightarrow> (None, s1)
      | Some (popped, rest) \<Rightarrow>
          (let job_id = fst popped;
               s2 = s1\<lparr>pending_queue := rest\<rparr>
           in case get_job s2 job_id of
                None \<Rightarrow> (None, s2)
              | Some job \<Rightarrow>
                  (let job' = job\<lparr>status := PROCESSING, started_at := Some now\<rparr>;
                       s3 = update_job job' s2
                   in (Some job',
                       s3\<lparr>processing_queue :=
                            zadd (processing_queue s3) job_id (of_int (py_int now))\<rparr>))))"

definition complete_job :: "real \<Rightarrow> string \<Rightarrow> payload option \<Rightarrow> QueueState \<Rightarrow> QueueState" where
  "complete_job now job_id res s =
     (case get_job s job_id of
        None \<Rightarrow> s
      | Some job \<Rightarrow>
          (let job' = job\<lparr>status := COMPLETED, completed_at := Some now,
                           result := Some (case res of None \<Rightarrow> [] | Some r \<Rightarrow> r)\<rparr>;
               s1 = update_job job' s;
               s2 = s1\<lparr>processing_queue := zrem (processing_queue s1) job_id\<rparr>
           in s2\<lparr>completed_queue := zadd (completed_queue s2) job_id (of_int (py_int now))\<rparr>))"

text \<open>
  \<^verbatim>\<open>_calculate_retry_delay\<close>. \<open>jitter\<close> is the float drawn by
  \<^verbatim>\<open>random.uniform(0.75, 1.25)\<close>. For \<open>retry_count \<ge> 1\<close> the first product is one of
  integers and \<^verbatim>\<open>delay * jitter\<close> converts it to a float; for \<open>retry_count < 1\<close> the
  power \<^verbatim>\<open>2 ** (retry_count - 1)\<close> is already a float (the exponent is converted first,
  then the base delay). \<open>capped\<close> is \<^verbatim>\<open>min(int(p), 3600)\<close> for the last product \<open>p\<close>,
  where \<^verbatim>\<open>int\<close> raises on an infinite \<open>p\<close>.
\<close>

definition capped :: "binary64 option \<Rightarrow> error + int" where
  "capped p =
     (case p of None \<Rightarrow> Inl OverflowError | Some x \<Rightarrow> Inr (min (int_of_float x) 3600))"

definition calculate_retry_delay :: "binary64 \<Rightarrow> int \<Rightarrow> int \<Rightarrow> error + int" where
  "calculate_retry_delay jitter rc base_delay =
     (if 0 \<le> rc - 1 then
        (case float_of_int (base_delay * 2 ^ nat (rc - 1)) of
           Inl err \<Rightarrow> Inl err
         | Inr delay \<Rightarrow> capped (float_mul delay jitter))
      else
        (case float_of_int (rc - 1) of
           Inl err \<Rightarrow> Inl err
         | Inr exponent \<Rightarrow>
             (case float_of_int base_delay of
                Inl err \<Rightarrow> Inl err
              | Inr b \<Rightarrow>
                  (case round64 1 (rc - 1) of
                     None \<Rightarrow> Inl OverflowError
                   | Some factor \<Rightarrow>
                       (case float_mul b factor of
                          None \<Rightarrow> Inl OverflowError
                        | Some delay \<Rightarrow> capped (float_mul delay jitter))))))"

text \<open>
  \<^verbatim>\<open>fail_job\<close> returns \<open>Inr ()\<close> or the exception it raises. An exception of the delay
  computation or of \<^verbatim>\<open>datetime.utcnow() + timedelta(seconds=retry_delay)\<close> leaves the
  function after the id was removed from the processing structure and before
  \<^verbatim>\<open>update_job\<close>: the stored record is the old one.
\<close>

definition fail_job ::
    "real \<Rightarrow> real \<Rightarrow> binary64 \<Rightarrow> string \<Rightarrow> string \<Rightarrow> QueueState \<Rightarrow> (error + unit) \<times> QueueState" where
  "fail_job now tz jitter job_id msg s =
     (case get_job s job_id of
        None \<Rightarrow> (Inr (), s)
      | Some job \<Rightarrow>
          (let job1 = job\<lparr>error_message := Some msg, retry_count := retry_count job + 1\<rparr>;
               s1 = s\<lparr>processing_queue := zrem (processing_queue s) job_id\<rparr>
           in if retry_count job1 \<le> max_retries job1
              then (let job2 = job1\<lparr>status := RETRYING\<rparr> in
                    case calculate_retry_delay jitter (retry_count job2) (retry_delay job2) of
                      Inl err \<Rightarrow> (Inl err, s1)
                    | Inr delay \<Rightarrow>
                        (case add_seconds now delay of
                           Inl err \<Rightarrow> (Inl err, s1)
                         | Inr retry_time \<Rightarrow>
                             (let s2 = update_job job2 s1
                              in (Inr (),
                                  s2\<lparr>retry_queue :=
                                       zadd (retry_queue s2) job_id (timestamp tz retry_time)\<rparr>))))
              else (let job2 = job1\<lparr>status := FAILED, completed_at := Some now\<rparr>;
                        s2 = update_job job2 s1
                    in (Inr (),
                        s2\<lparr>failed_queue :=
                             zadd (failed_queue s2) job_id (of_int (py_int now))\<rparr>))))"

definition cancel_job :: "real \<Rightarrow> string \<Rightarrow> QueueState \<Rightarrow> bool \<times> QueueState" where
  "cancel_job now job_id s =
     (case get_job s job_id of
        None \<Rightarrow> (False, s)
      | Some job \<Rightarrow>
          if status job \<in> set [COMPLETED, FAILED, CANCELLED] then (False, s)
          else (let job' = job\<lparr>status := CANCELLED, completed_at := Some now\<rparr>;
                    s1 = update_job job' s
                in (True,
                    s1\<lparr>pending_queue := zrem (pending_queue s1) job_id,
                       processing_queue := zrem (processing_queue s1) job_id,
                       retry_queue := zrem (retry_queue s1) job_id,
                       scheduled_queue := zrem (scheduled_queue s1) job_id\<rparr>)))"

text \<open>
  A handler returns \<open>Inr result\<close> or raises; \<open>Inl msg\<close> is the raised exception with
  \<^verbatim>\<open>str(e) = msg\<close>. \<open>report_failure\<close> is the \<^verbatim>\<open>except\<close> branch of \<^verbatim>\<open>process_job\<close>: it
  calls \<open>fail_job\<close> and returns \<open>False\<close>, unless \<open>fail_job\<close> raises, in which case the
  exception leaves \<^verbatim>\<open>process_job\<close>. \<open>run_handler\<close> is the second half of the \<^verbatim>\<open>try\<close>
  block (handler lookup, call, completion) and \<open>reschedule\<close> its deferral branch.
\<close>

type_synonym handler = "payload \<Rightarrow> string + payload option"

definition report_failure ::
    "real \<Rightarrow> real \<Rightarrow> binary64 \<Rightarrow> string \<Rightarrow> string \<Rightarrow> QueueState \<Rightarrow> (error + bool) \<times> QueueState" where
  "report_failure now tz jitter job_id msg s =
     (case fail_job now tz jitter job_id msg s of
        (Inl err, s') \<Rightarrow> (Inl err, s')
      | (Inr u, s') \<Rightarrow> (Inr False, s'))"

definition run_handler ::
    "(string \<rightharpoonup> handler) \<Rightarrow> real \<Rightarrow> real \<Rightarrow> binary64 \<Rightarrow> QueueJob \<Rightarrow> QueueState
      \<Rightarrow> (error + bool) \<times> QueueState" where
  "run_handler job_handlers now tz jitter job s =
     (case job_handlers (job_type job) of
        None \<Rightarrow>
          report_failure now tz jitter (jid job)
            (''No handler registered for job type: '' @ job_type job) s
      | Some h \<Rightarrow>
          (case h (payload job) of
             Inl e \<Rightarrow> report_failure now tz jitter (jid job) e s
           | Inr res \<Rightarrow> (Inr True, complete_job now (jid job) res s)))"

definition reschedule :: "real \<Rightarrow> real \<Rightarrow> QueueJob \<Rightarrow> QueueState \<Rightarrow> QueueState" where
  "reschedule tz reset_time job s =
     (let job' = job\<lparr>scheduled_at := reset_time + 60, status := PENDING\<rparr>;
          s1 = update_job job' s
      in s1\<lparr>scheduled_queue :=
              zadd (scheduled_queue s1) (jid job') (timestamp tz (scheduled_at job'))\<rparr>)"

definition process_job ::
    "(string \<rightharpoonup> handler) \<Rightarrow> real \<Rightarrow> real \<Rightarrow> binary64 \<Rightarrow> QueueJob \<Rightarrow> QueueState
      \<Rightarrow> (error + bool) \<times> QueueState" where
  "process_job job_handlers now tz jitter job s =
     (case (payload_get (payload job) ''platform'', payload_get (payload job) ''user_id'') of
        (Some platform, Some user_id) \<Rightarrow>
          if truthy platform \<and> truthy user_id then
            (case is_allowed now platform (str_of user_id) (rate_keys s) of
               (allowed, kv) \<Rightarrow>
                 (let s1 = s\<lparr>rate_keys := kv\<rparr> in
                  if \<not> allowed then
                    (case get_reset_time now platform (str_of user_id) kv of
                       Some reset_time \<Rightarrow> (Inr True, reschedule tz reset_time job s1)
                     | None \<Rightarrow>
                         report_failure now tz jitter (jid job)
                           (''Rate limit exceeded for '' @ str_of platform
                              @ ''. Resets at None'') s1)
                  else run_handler job_handlers now tz jitter job s1))
          else run_handler job_handlers now tz jitter job s
      | _ \<Rightarrow> run_handler job_handlers now tz jitter job s)"

fun hdel_all :: "string list \<Rightarrow> (string \<rightharpoonup> QueueJob) \<Rightarrow> (string \<rightharpoonup> QueueJob)" where
  \<comment> \<open>the loop of \<^verbatim>\<open>hdel\<close> calls\<close>
  "hdel_all [] m = m"
| "hdel_all (job_id # ids) m = hdel_all ids (m(job_id := None))"

definition cleanup_old_jobs :: "real \<Rightarrow> int \<Rightarrow> QueueState \<Rightarrow> QueueState" where
  "cleanup_old_jobs now days s =
     (let cutoff_time = now - of_int (days * 24 * 60 * 60);
          old_completed = zrangebyscore (completed_queue s) 0 cutoff_time;
          s1 = (if old_completed \<noteq> []
                then s\<lparr>completed_queue := zremrangebyscore (completed_queue s) 0 cutoff_time,
                       jobs := hdel_all old_completed (jobs s)\<rparr>
                else s);
          old_failed = zrangebyscore (failed_queue s1) 0 cutoff_time
      in if old_failed \<noteq> []
         then s1\<lparr>failed_queue := zremrangebyscore (failed_queue s1) 0 cutoff_time,
                 jobs := hdel_all old_failed (jobs s1)\<rparr>
         else s1)"

section \<open>Workers and runs\<close>

definition worker_iteration ::
    "(string \<rightharpoonup> handler) \<Rightarrow> real \<Rightarrow> real \<Rightarrow> binary64 \<Rightarrow> QueueState \<Rightarrow> QueueState" where
  \<comment> \<open>one turn of \<^verbatim>\<open>_worker_loop\<close>: dequeue and, if a job came back, process it; an
      exception that leaves \<^verbatim>\<open>process_job\<close> is logged and the loop goes on\<close>
  "worker_iteration job_handlers now tz jitter s =
     (case dequeue now s of
        (None, s') \<Rightarrow> s'
      | (Some job, s') \<Rightarrow> snd (process_job job_handlers now tz jitter job s'))"

text \<open>
  A run of the queue manager is a list of calls, applied from left to right; the state
  after a call that raised is the one in which the exception left it.
\<close>

datatype operation =
    Enqueue real real QueueJob
  | Dequeue real
  | CompleteJob real string "payload option"
  | FailJob real real binary64 string string
  | CancelJob real string
  | ProcessJob "string \<rightharpoonup> handler" real real binary64 QueueJob
  | CleanupOldJobs real int
  | WorkerIteration "string \<rightharpoonup> handler" real real binary64

fun apply_operation :: "operation \<Rightarrow> QueueState \<Rightarrow> QueueState" where
  "apply_operation (Enqueue now tz job) s = snd (enqueue now tz job s)"
| "apply_operation (Dequeue now) s = snd (dequeue now s)"
| "apply_operation (CompleteJob now job_id res) s = complete_job now job_id res s"
| "apply_operation (FailJob now tz jitter job_id msg) s = snd (fail_job now tz jitter job_id msg s)"
| "apply_operation (CancelJob now job_id) s = snd (cancel_job now job_id s)"
| "apply_operation (ProcessJob job_handlers now tz jitter job) s =
     snd (process_job job_handlers now tz jitter job s)"
| "apply_operation (CleanupOldJobs now days) s = cleanup_old_jobs now days s"
| "apply_operation (WorkerIteration job_handlers now tz jitter) s =
     worker_iteration job_handlers now tz jitter s"

definition run :: "operation list \<Rightarrow> QueueState \<Rightarrow> QueueState" where
  "run ops s = fold apply_operation ops s"

section \<open>Invariants and run conditions\<close>

definition keyed_by_id :: "QueueState \<Rightarrow> bool" where
  \<comment> \<open>every record is stored under its own id, as \<open>enqueue\<close> and \<open>update_job\<close> write it\<close>
  "keyed_by_id s = (\<forall>k j. jobs s k = Some j \<longrightarrow> jid j = k)"

fun submits_new_job :: "operation \<Rightarrow> bool" where
  \<comment> \<open>producers submit jobs in their initial status\<close>
  "submits_new_job (Enqueue now tz job) = (status job \<in> {PENDING, QUEUED})"
| "submits_new_job _ = True"

definition retry_bounded :: "QueueState \<Rightarrow> bool" where
  "retry_bounded s =
     (\<forall>k j. jobs s k = Some j \<longrightarrow> status j = RETRYING \<longrightarrow> retry_count j \<le> max_retries j)"


section \<open>Example runs\<close>

text \<open>
  Concrete jobs and states for the worked examples. \<open>toy_dumps\<close> and \<open>toy_digest\<close>
  stand in for the JSON rendering and the digest where an example needs a derived key.
  The examples run in a process whose zone is UTC (\<open>tz = 0\<close>) unless they say otherwise,
  and draw the jitter 1.0, the float \<open>(1, 0)\<close>.
\<close>

definition toy_dumps :: "payload \<Rightarrow> string" where
  "toy_dumps p = concat (map (\<lambda>kv. fst kv @ ''='' @ str_of (snd kv) @ '';'') p)"

definition toy_digest :: "string \<Rightarrow> string" where
  "toy_digest content = rev content"

definition toy_job :: "string \<Rightarrow> string \<Rightarrow> JobPriority \<Rightarrow> real \<Rightarrow> QueueJob" where
  \<comment> \<open>a job with id \<open>i\<close> and idempotency key \<open>k\<close>, built at time \<open>t\<close>\<close>
  "toy_job i k pr t =
     new_QueueJob toy_dumps toy_digest t i ''social_media_post'' [] pr None (Some k)"

definition ok_handlers :: "string \<rightharpoonup> handler" where
  \<comment> \<open>a registry whose handler for \<^verbatim>\<open>social_media_post\<close> returns without a result\<close>
  "ok_handlers = Map.empty(''social_media_post'' \<mapsto> (\<lambda>p. Inr None))"

definition processing_state :: QueueState where
  \<comment> \<open>one job, enqueued at 100 and dequeued at 101\<close>
  "processing_state =
     snd (dequeue 101 (snd (enqueue 100 0 (toy_job ''job-1'' ''key-1'' NORMAL 100) empty_state)))"

definition processing_job :: QueueJob where
  "processing_job = (toy_job ''job-1'' ''key-1'' NORMAL 100)\<lparr>status := PROCESSING, started_at := Some 101\<rparr>"

definition cancelled_state :: QueueState where
  "cancelled_state = snd (cancel_job 102 ''job-1'' processing_state)"






definition sync_job_a :: QueueJob where
  "sync_job_a = new_QueueJob toy_dumps toy_digest 100 ''job-a'' ''analytics_sync''
     [(''user_id'', PInt 42), (''platform'', PStr ''twitter'')] LOW None None"

definition sync_job_b :: QueueJob where
  "sync_job_b = new_QueueJob toy_dumps toy_digest 105 ''job-b'' ''analytics_sync''
     [(''platform'', PStr ''twitter''), (''user_id'', PInt 42)] NORMAL None None"

definition twitter_job :: QueueJob where
  "twitter_job = create_post_job toy_dumps toy_digest 900 ''job-7'' 7 ''twitter'' 42 None NORMAL"

definition twitter_processing_job :: QueueJob where
  "twitter_processing_job = twitter_job\<lparr>status := PROCESSING, started_at := Some 901\<rparr>"

definition limited_state :: QueueState where
  \<comment> \<open>\<open>twitter_job\<close> enqueued at 900 and dequeued at 901, while the counter of user 42 on
      twitter stands at its ceiling of 300 and expires at 1000\<close>
  "limited_state =
     (snd (dequeue 901 (snd (enqueue 900 0 twitter_job empty_state))))
       \<lparr>rate_keys := Map.empty(''rate_limit:twitter:42'' \<mapsto> (300, Some 1000))\<rparr>"

definition urgent_then_low_state :: QueueState where
  \<comment> \<open>an URGENT job enqueued at 1700000000 and a LOW job enqueued 3001 seconds later\<close>
  "urgent_then_low_state =
     snd (enqueue 1700003001 0 (toy_job ''job-low'' ''key-low'' LOW 1700003001)
       (snd (enqueue 1700000000 0 (toy_job ''job-urgent'' ''key-urgent'' URGENT 1700000000)
          empty_state)))"

definition first_normal_job :: QueueJob where
  "first_normal_job = toy_job ''job-1'' ''key-1'' NORMAL 100"

definition second_normal_job :: QueueJob where
  "second_normal_job = toy_job ''job-2'' ''key-2'' NORMAL 101"

definition one_normal_state :: QueueState where
  \<comment> \<open>the first NORMAL job, enqueued at 100\<close>
  "one_normal_state = snd (enqueue 100 0 first_normal_job empty_state)"

definition two_normal_state :: QueueState where
  \<comment> \<open>two NORMAL jobs: the first enqueued at 100, the second at 101\<close>
  "two_normal_state = snd (enqueue 101 0 second_normal_job one_normal_state)"

definition job_a :: QueueJob where
  "job_a = toy_job ''job-a'' ''key-a'' NORMAL (1007 / 10)"

definition job_b :: QueueJob where
  "job_b = toy_job ''job-b'' ''key-b'' NORMAL (1002 / 10)"

definition same_second_state :: QueueState where
  \<comment> \<open>two NORMAL jobs enqueued within one second: \<^verbatim>\<open>job-b\<close> at 100.2, then \<^verbatim>\<open>job-a\<close> at 100.7\<close>
  "same_second_state =
     snd (enqueue (1007 / 10) 0 job_a (snd (enqueue (1002 / 10) 0 job_b empty_state)))"

definition deferred_job :: QueueJob where
  \<comment> \<open>a job built at 100 for execution at 200\<close>
  "deferred_job =
     new_QueueJob toy_dumps toy_digest 100 ''job-3'' ''social_media_post'' [] NORMAL (Some 200)
       (Some ''key-3'')"

definition deferred_state :: QueueState where
  "deferred_state = snd (enqueue 100 0 deferred_job empty_state)"

definition retrying_job :: QueueJob where
  \<comment> \<open>\<open>first_normal_job\<close> after it was dequeued at 101 and reported failed at 102\<close>
  "retrying_job =
     first_normal_job\<lparr>status := RETRYING, started_at := Some 101, retry_count := 1,
                       error_message := Some ''boom''\<rparr>"

definition retrying_state :: QueueState where
  "retrying_state =
     snd (fail_job 102 0 (1, 0) ''job-1'' ''boom'' (snd (dequeue 101 one_normal_state)))"




section \<open>Properties\<close>

subsection \<open>Unfolding rules\<close>

lemmas store_defs = zadd_def zrem_def zscore_def zsorted_def in_range_def zrangebyscore_def
  zremrangebyscore_def zpopmax_def py_int_def get_job_def update_job_def pending_score_def

lemmas queue_defs = enqueue_def enqueue_new_def promote_scheduled_def promote_retry_def
  move_scheduled_jobs_def dequeue_def complete_job_def fail_job_def cancel_job_def
  cleanup_old_jobs_def empty_state_def timestamp_def add_seconds_def

lemmas toy_defs = toy_job_def new_QueueJob_def toy_dumps_def toy_digest_def

lemmas float_defs = round64_def round_half_even_def float_of_int_def float_mul_def
  int_of_float_def capped_def calculate_retry_delay_def

subsection \<open>Arithmetic\<close>

lemma py_int_nonneg: "0 \<le> x \<Longrightarrow> py_int x = \<lfloor>x\<rfloor>"
  by (simp add: py_int_def)

lemma py_int_mono: "x \<le> y \<Longrightarrow> py_int x \<le> py_int y"
  by (auto simp: py_int_def intro: floor_mono ceiling_mono)
     (meson ceiling_le_zero dual_order.trans zero_le_floor order_less_imp_le not_le)

lemma str_nat_42: "str_nat 42 = ''42''"
  by (simp add: str_nat.simps digit_char_def)

subsection \<open>Binary64 arithmetic\<close>

lemma bit_length_0: "bit_length 0 = 0"
  by (subst bit_length.simps) simp

lemma bit_length_Suc_0: "bit_length (Suc 0) = Suc 0"
  by (subst bit_length.simps) (simp add: bit_length_0)

lemma bit_length_One: "bit_length 1 = Suc 0"
  using bit_length_Suc_0 by simp

lemma bit_length_Bit0: "bit_length (numeral (Num.Bit0 k)) = Suc (bit_length (numeral k))"
  by (subst bit_length.simps) simp

lemma bit_length_Bit1: "bit_length (numeral (Num.Bit1 k)) = Suc (bit_length (numeral k))"
  by (subst bit_length.simps) simp

lemmas bit_length_numeral = bit_length_0 bit_length_Suc_0 bit_length_One bit_length_Bit0 bit_length_Bit1

lemma bit_length_upper: "n < 2 ^ bit_length n"
proof (induction n rule: bit_length.induct)
  case (1 n)
  show ?case
  proof (cases "n = 0")
    case True
    then show ?thesis by (simp add: bit_length_0)
  next
    case False
    have "n div 2 < 2 ^ bit_length (n div 2)" using 1 False by simp
    then have "n < 2 * 2 ^ bit_length (n div 2)" by linarith
    moreover have "bit_length n = Suc (bit_length (n div 2))"
      using False by (subst bit_length.simps) simp
    ultimately show ?thesis by simp
  qed
qed

lemma bit_length_pos: "0 < n \<Longrightarrow> 0 < bit_length n"
  by (subst bit_length.simps) simp

lemma bit_length_lower: "0 < n \<Longrightarrow> 2 ^ (bit_length n - 1) \<le> n"
proof (induction n rule: bit_length.induct)
  case (1 n)
  have bl: "bit_length n = Suc (bit_length (n div 2))"
    using 1(2) by (subst bit_length.simps) simp
  show ?case
  proof (cases "n div 2 = 0")
    case True
    then show ?thesis using 1(2) bl by (simp add: bit_length_0)
  next
    case False
    then have p: "0 < n div 2" by simp
    have "2 ^ (bit_length (n div 2) - 1) \<le> n div 2" using 1 p by simp
    then have "2 * 2 ^ (bit_length (n div 2) - 1) \<le> n" by linarith
    moreover have "2 * (2::nat) ^ (bit_length (n div 2) - 1) = 2 ^ bit_length (n div 2)"
      using bit_length_pos [OF p] by (cases "bit_length (n div 2)") simp_all
    ultimately show ?thesis using bl by simp
  qed
qed

lemma bit_length_le: "n < 2 ^ k \<Longrightarrow> bit_length n \<le> k"
proof (rule ccontr)
  assume a: "n < 2 ^ k" and "\<not> bit_length n \<le> k"
  then have k: "k \<le> bit_length n - 1" and p: "0 < n"
    by (auto simp: bit_length_0 intro: Nat.gr0I)
  have "(2::nat) ^ k \<le> 2 ^ (bit_length n - 1)" using k by (simp add: power_increasing)
  then show False using bit_length_lower [OF p] a by linarith
qed

lemma bit_length_gt: "2 ^ k \<le> n \<Longrightarrow> k < bit_length n"
proof (rule ccontr)
  assume a: "2 ^ k \<le> n" and "\<not> k < bit_length n"
  then have "(2::nat) ^ bit_length n \<le> 2 ^ k" by (simp add: power_increasing)
  then show False using bit_length_upper [of n] a by linarith
qed

lemma round_half_even_zero_shift: "round_half_even a 0 = a"
  by (simp add: round_half_even_def)

lemma round_half_even_bounds:
  "a div 2 ^ s \<le> round_half_even a s \<and> round_half_even a s \<le> a div 2 ^ s + 1"
  by (simp add: round_half_even_def Let_def)

lemma round_half_even_error:
  "2 * \<bar>round_half_even a s * 2 ^ s - a\<bar> \<le> 2 ^ s"
proof -
  define q where "q = a div 2 ^ s"
  define r where "r = a mod 2 ^ s"
  have a: "a = q * 2 ^ s + r" unfolding q_def r_def by (simp add: div_mult_mod_eq)
  have r: "0 \<le> r" "r < 2 ^ s" by (simp_all add: r_def)
  show ?thesis
  proof (cases "2 ^ s < 2 * r \<or> (2 * r = 2 ^ s \<and> odd q)")
    case True
    then have "round_half_even a s = q + 1"
      by (simp add: round_half_even_def Let_def q_def r_def)
    then have "round_half_even a s * 2 ^ s - a = 2 ^ s - r"
      using a by (simp add: algebra_simps)
    then show ?thesis using True r by auto
  next
    case False
    then have "round_half_even a s = q"
      by (simp add: round_half_even_def Let_def q_def r_def)
    then have "round_half_even a s * 2 ^ s - a = - r"
      using a by simp
    then show ?thesis using False r by auto
  qed
qed

lemma pow2_powi: "pow2 e = 2 powi e"
  by (simp add: pow2_def power_int_def field_simps)

lemma pow2_pos: "0 < pow2 e"
  by (simp add: pow2_def)

lemma pow2_add: "pow2 (a + b) = pow2 a * pow2 b"
  by (simp add: pow2_powi power_int_add)

lemma pow2_nat: "pow2 (int n) = 2 ^ n"
  by (simp add: pow2_def)

lemma pow2_0: "pow2 0 = 1"
  by (simp add: pow2_def)

lemma pow2_strict_mono: "a < b \<Longrightarrow> pow2 a < pow2 b"
  by (simp add: pow2_powi power_int_strict_increasing)

lemma pow2_mono: "a \<le> b \<Longrightarrow> pow2 a \<le> pow2 b"
  by (simp add: pow2_powi power_int_increasing)

lemma pow2_less_iff: "pow2 a < pow2 b \<longleftrightarrow> a < b"
  using pow2_strict_mono [of a b] pow2_mono [of b a] by (cases "a < b") auto

lemma pow2_le_iff: "pow2 a \<le> pow2 b \<longleftrightarrow> a \<le> b"
  using pow2_strict_mono [of b a] pow2_mono [of a b] by (cases "a \<le> b") auto

lemma nat_pow2_le: "0 \<le> z \<Longrightarrow> (2::nat) ^ k \<le> nat z \<longleftrightarrow> (2::int) ^ k \<le> z"
  by (simp add: le_nat_iff)

lemma real_pow2_le: "(2::int) ^ k \<le> z \<longleftrightarrow> (2::real) ^ k \<le> real_of_int z"
proof -
  have "(2::int) ^ k \<le> z \<longleftrightarrow> real_of_int (2 ^ k) \<le> real_of_int z"
    by (simp only: of_int_le_iff)
  then show ?thesis by simp
qed

lemma round64_unfold:
  assumes "0 \<le> m" and "- 1074 \<le> e"
  shows "round64 m e =
     (if round_half_even m (nat (int (bit_length (nat m)) - 53)) \<noteq> 0
         \<and> 1024 < int (bit_length (nat (round_half_even m (nat (int (bit_length (nat m)) - 53)))))
                  + (e + int (nat (int (bit_length (nat m)) - 53)))
      then None
      else Some (round_half_even m (nat (int (bit_length (nat m)) - 53)),
                 e + int (nat (int (bit_length (nat m)) - 53))))"
proof -
  have s: "nat (max (int (bit_length (nat m)) - 53) (- 1074 - e))
      = nat (int (bit_length (nat m)) - 53)"
    using assms(2) by (simp add: max_def)
  have z: "m = 0 \<Longrightarrow> round_half_even m k = 0" for k
    by (simp add: round_half_even_def)
  have sg: "sgn m * round_half_even m k = round_half_even m k" for k
    using assms(1) z [of k] by (cases "m = 0") (simp_all add: sgn_if)
  have a: "\<bar>m\<bar> = m" using assms(1) by simp
  show ?thesis
    by (simp only: round64_def Let_def a s sg)
qed

lemma round_half_even_nonneg: "0 \<le> a \<Longrightarrow> 0 \<le> round_half_even a s"
  using round_half_even_bounds [of a s] pos_imp_zdiv_nonneg_iff [of "2 ^ s" a] by simp

lemma round_to_53_error:
  assumes "0 \<le> m"
  shows "\<bar>real_of_int (round_half_even m (nat (int (bit_length (nat m)) - 53)))
            * 2 ^ nat (int (bit_length (nat m)) - 53) - real_of_int m\<bar>
         \<le> real_of_int m / 2 ^ 53"
proof (cases "nat (int (bit_length (nat m)) - 53) = 0")
  case True
  then show ?thesis using assms by (simp add: round_half_even_zero_shift)
next
  case False
  define s where "s = nat (int (bit_length (nat m)) - 53)"
  have sp: "0 < s" using False by (simp add: s_def)
  have bl: "bit_length (nat m) = 53 + s" using sp by (simp add: s_def)
  have mp: "0 < nat m" using bl by (cases "nat m = 0") (simp_all add: bit_length_0)
  have "2 ^ (52 + s) \<le> nat m" using bit_length_lower [OF mp] bl by simp
  then have "(2::int) ^ (52 + s) \<le> m" using assms by (simp only: nat_pow2_le)
  then have lo: "(2::real) ^ (52 + s) \<le> real_of_int m" by (simp only: real_pow2_le)
  have "2 * \<bar>round_half_even m s * 2 ^ s - m\<bar> \<le> 2 ^ s"
    by (rule round_half_even_error)
  then have "real_of_int (2 * \<bar>round_half_even m s * 2 ^ s - m\<bar>) \<le> real_of_int (2 ^ s)"
    by (simp only: of_int_le_iff)
  then have e: "2 * \<bar>real_of_int (round_half_even m s) * 2 ^ s - real_of_int m\<bar> \<le> 2 ^ s"
    by simp
  have "(2::real) ^ s * 2 ^ 53 = 2 * 2 ^ (52 + s)" by (simp add: power_add)
  then have h: "(2::real) ^ s / 2 \<le> real_of_int m / 2 ^ 53"
    using lo by (simp add: field_simps)
  have "\<bar>real_of_int (round_half_even m s) * 2 ^ s - real_of_int m\<bar> \<le> 2 ^ s / 2"
    using e by simp
  then have "\<bar>real_of_int (round_half_even m s) * 2 ^ s - real_of_int m\<bar>
      \<le> real_of_int m / 2 ^ 53"
    using h by (rule order_trans)
  then show ?thesis by (simp only: s_def)
qed

lemma round64_Some_error:
  assumes "0 \<le> m" and "- 1074 \<le> e" and "round64 m e = Some x"
  shows "\<bar>valof x - real_of_int m * pow2 e\<bar> \<le> real_of_int m * pow2 e / 2 ^ 53
       \<and> 0 \<le> fst x \<and> e \<le> snd x"
proof -
  define s where "s = nat (int (bit_length (nat m)) - 53)"
  define q where "q = round_half_even m s"
  have x: "x = (q, e + int s)"
    using assms(3) unfolding round64_unfold [OF assms(1,2)] q_def s_def
    by (simp split: if_splits)
  have v: "valof x = real_of_int q * 2 ^ s * pow2 e"
    by (simp add: x valof_def pow2_add pow2_nat mult.commute mult.left_commute)
  have "\<bar>real_of_int q * 2 ^ s - real_of_int m\<bar> \<le> real_of_int m / 2 ^ 53"
    using round_to_53_error [OF assms(1)] by (simp add: q_def s_def)
  then have "\<bar>real_of_int q * 2 ^ s - real_of_int m\<bar> * pow2 e \<le> real_of_int m / 2 ^ 53 * pow2 e"
    using pow2_pos [of e] by (simp add: mult_right_mono)
  moreover have "\<bar>valof x - real_of_int m * pow2 e\<bar>
      = \<bar>real_of_int q * 2 ^ s - real_of_int m\<bar> * pow2 e"
    using pow2_pos [of e] by (simp add: v abs_mult [symmetric] left_diff_distrib abs_mult_pos)
  ultimately have "\<bar>valof x - real_of_int m * pow2 e\<bar> \<le> real_of_int m * pow2 e / 2 ^ 53"
    by simp
  moreover have "0 \<le> fst x"
    using round_half_even_nonneg [OF assms(1)] by (simp add: x q_def)
  moreover have "e \<le> snd x" by (simp add: x)
  ultimately show ?thesis by simp
qed

lemma pow2_1024: "pow2 1024 = 2 ^ 1024"
  by (simp add: pow2_def)

lemma round64_returns:
  assumes "0 \<le> m" and "- 1074 \<le> e"
    and "real_of_int m * pow2 e * (1 + 1 / 2 ^ 53) < 2 ^ 1024"
  shows "\<exists>x. round64 m e = Some x"
proof (rule ccontr)
  assume "\<not> (\<exists>x. round64 m e = Some x)"
  then have n: "round64 m e = None" by (cases "round64 m e") auto
  define s where "s = nat (int (bit_length (nat m)) - 53)"
  define q where "q = round_half_even m s"
  have c: "q \<noteq> 0" "1024 < int (bit_length (nat q)) + (e + int s)"
    using n unfolding round64_unfold [OF assms(1,2)] q_def s_def
    by (simp_all split: if_splits)
  have q0: "0 \<le> q" using round_half_even_nonneg [OF assms(1)] by (simp add: q_def)
  then have qp: "0 < nat q" using c(1) by simp
  have "2 ^ (bit_length (nat q) - 1) \<le> nat q" using bit_length_lower [OF qp] .
  then have "(2::int) ^ (bit_length (nat q) - 1) \<le> q" using q0 by (simp only: nat_pow2_le)
  then have lo: "(2::real) ^ (bit_length (nat q) - 1) \<le> real_of_int q"
    by (simp only: real_pow2_le)
  have "pow2 1024 \<le> pow2 (int (bit_length (nat q) - 1) + (e + int s))"
    using c(2) bit_length_pos [OF qp] by (intro pow2_mono) linarith
  also have "\<dots> = 2 ^ (bit_length (nat q) - 1) * pow2 (e + int s)"
    by (simp only: pow2_add pow2_nat)
  also have "\<dots> \<le> real_of_int q * pow2 (e + int s)"
    using lo pow2_pos [of "e + int s"] by (simp only: mult_right_mono less_imp_le)
  finally have big: "2 ^ 1024 \<le> real_of_int q * pow2 (e + int s)"
    by (simp only: pow2_1024)
  have err: "\<bar>real_of_int q * 2 ^ s - real_of_int m\<bar> \<le> real_of_int m / 2 ^ 53"
    using round_to_53_error [OF assms(1)] by (simp only: q_def s_def)
  moreover have "real_of_int q * 2 ^ s - real_of_int m
      \<le> \<bar>real_of_int q * 2 ^ s - real_of_int m\<bar>"
    by (rule abs_ge_self)
  ultimately have "real_of_int q * 2 ^ s \<le> real_of_int m + real_of_int m / 2 ^ 53"
    by linarith
  moreover have "real_of_int m + real_of_int m / 2 ^ 53 = real_of_int m * (1 + 1 / 2 ^ 53)"
    by (simp only: distrib_left mult_1_right times_divide_eq_right)
  ultimately have up: "real_of_int q * 2 ^ s \<le> real_of_int m * (1 + 1 / 2 ^ 53)"
    by (simp only:)
  have "real_of_int q * pow2 (e + int s) = real_of_int q * 2 ^ s * pow2 e"
    by (simp only: pow2_add pow2_nat ac_simps)
  also have "\<dots> \<le> real_of_int m * (1 + 1 / 2 ^ 53) * pow2 e"
    using up pow2_pos [of e] by (simp only: mult_right_mono less_imp_le)
  also have "\<dots> = real_of_int m * pow2 e * (1 + 1 / 2 ^ 53)"
    by (simp only: ac_simps)
  also have "\<dots> < 2 ^ 1024" by (rule assms(3))
  finally have "real_of_int q * pow2 (e + int s) < 2 ^ 1024" .
  then show False using leD [OF big] by simp
qed

lemma round64_overflow:
  assumes "2 ^ 1024 \<le> n"
  shows "round64 n 0 = None"
proof -
  have n0: "0 \<le> n"
  proof -
    have "(0::int) \<le> 2 ^ 1024" by simp
    then show ?thesis using assms by (rule order_trans)
  qed
  define s where "s = nat (int (bit_length (nat n)) - 53)"
  define q where "q = round_half_even n s"
  have "(2::nat) ^ 1024 \<le> nat n" using assms n0 by (simp only: nat_pow2_le)
  then have bl: "1024 < bit_length (nat n)" by (rule bit_length_gt)
  then have s: "int s = int (bit_length (nat n)) - 53" by (simp add: s_def)
  have np: "0 < nat n" using bl by (cases "nat n = 0") (simp_all add: bit_length_0)
  have "2 ^ (bit_length (nat n) - 1) \<le> nat n" using bit_length_lower [OF np] .
  then have "(2::int) ^ (bit_length (nat n) - 1) \<le> n" using n0 by (simp only: nat_pow2_le)
  moreover have "bit_length (nat n) - 1 = 52 + s" using bl by (simp add: s_def)
  ultimately have "(2::int) ^ 52 * 2 ^ s \<le> n" by (simp add: power_add)
  then have "((2::int) ^ 52 * 2 ^ s) div 2 ^ s \<le> n div 2 ^ s"
    by (rule zdiv_mono1) simp
  then have "(2::int) ^ 52 \<le> n div 2 ^ s" by simp
  then have q52: "2 ^ 52 \<le> q" using round_half_even_bounds [of n s] by (simp add: q_def)
  have q0: "0 \<le> q"
  proof -
    have "(0::int) \<le> 2 ^ 52" by simp
    then show ?thesis using q52 by (rule order_trans)
  qed
  have "(2::nat) ^ 52 \<le> nat q" using q52 q0 by (simp only: nat_pow2_le)
  then have "52 < bit_length (nat q)" by (rule bit_length_gt)
  then have c: "1024 < int (bit_length (nat q)) + (0 + int s)" using bl s by linarith
  have qn: "q \<noteq> 0" using q52 by auto
  have m: "- 1074 \<le> (0::int)" by simp
  show ?thesis
    unfolding round64_unfold [OF n0 m] using c qn by (simp add: q_def s_def)
qed

lemma int_of_float_floor:
  assumes "0 \<le> fst x"
  shows "int_of_float x = \<lfloor>valof x\<rfloor>"
proof (cases "0 \<le> snd x")
  case True
  have "valof x = real_of_int (fst x * 2 ^ nat (snd x))"
    using True by (simp add: valof_def pow2_def)
  then show ?thesis using True by (simp add: int_of_float_def del: of_int_mult of_int_power)
next
  case False
  have "valof x = real_of_int (fst x) / real_of_int (2 ^ nat (- snd x))"
    using False by (simp add: valof_def pow2_def)
  then have "\<lfloor>valof x\<rfloor> = fst x div 2 ^ nat (- snd x)"
    by (simp only: floor_divide_of_int_eq)
  moreover have "sgn (fst x) * (\<bar>fst x\<bar> div 2 ^ nat (- snd x)) = fst x div 2 ^ nat (- snd x)"
    using assms by (cases "fst x = 0") (simp_all add: sgn_if)
  ultimately show ?thesis using False by (simp add: int_of_float_def)
qed

lemma valof_nonneg: "0 \<le> fst x \<Longrightarrow> 0 \<le> valof x"
  using pow2_pos [of "snd x"] by (simp add: valof_def)

lemma valof_mult: "real_of_int (fst x * fst y) * pow2 (snd x + snd y) = valof x * valof y"
  by (simp add: valof_def pow2_add)

lemma calculate_retry_delay_overflow:
  assumes "1 \<le> rc" and "2 ^ 1024 \<le> base_delay * 2 ^ nat (rc - 1)"
  shows "calculate_retry_delay jitter rc base_delay = Inl OverflowError"
  using assms(1) round64_overflow [OF assms(2)]
  by (simp add: calculate_retry_delay_def float_of_int_def)

text \<open>Two roundings of a product: the conversion of the integer and the multiplication.\<close>

lemma rounded_product:
  assumes d0: "0 \<le> d" and dlt: "d < 2 ^ 1023" and j: "drawn_jitter j"
  shows "\<exists>x1 x2. round64 d 0 = Some x1 \<and> float_mul x1 j = Some x2 \<and> 0 \<le> fst x2
           \<and> real_of_int d * (3 / 4) * (1 - 1 / 2 ^ 52) \<le> valof x2
           \<and> valof x2 \<le> real_of_int d * (5 / 4) * (1 + 1 / 2 ^ 51)
           \<and> \<bar>valof x2 - real_of_int d * valof j\<bar> \<le> real_of_int d * valof j / 2 ^ 51"
proof -
  define u :: real where "u = 1 / 2 ^ 53"
  define B :: real where "B = 2 ^ 1023"
  have u0: "0 < u" and uv: "u = 1 / 9007199254740992" by (simp_all add: u_def)
  have B2: "2 * B = 2 ^ 1024" by (simp add: B_def)
  have Bp: "0 < B" by (simp add: B_def)
  have jv: "3 / 4 \<le> valof j" "valof j \<le> 5 / 4" and jm: "0 \<le> fst j" and je: "- 1074 \<le> snd j"
    using j by (simp_all add: drawn_jitter_def)
  have dr: "0 \<le> real_of_int d" using d0 by simp
  have "real_of_int d < real_of_int (2 ^ 1023)" using dlt by (simp only: of_int_less_iff)
  then have dB: "real_of_int d < B" by (simp add: B_def)
  have m0: "- 1074 \<le> (0::int)" by simp
  have "real_of_int d * pow2 0 * (1 + 1 / 2 ^ 53) < 2 ^ 1024"
  proof -
    have "real_of_int d * (1 + u) \<le> real_of_int d * 2"
      using dr by (intro mult_left_mono) (simp_all add: uv)
    then have "real_of_int d * (1 + u) < 2 * B" using dB by linarith
    then show ?thesis by (simp only: pow2_0 mult_1_right u_def B2)
  qed
  then obtain x1 where x1: "round64 d 0 = Some x1"
    using round64_returns [OF d0 m0] by blast
  note e1 = round64_Some_error [OF d0 m0 x1]
  have v1: "\<bar>valof x1 - real_of_int d\<bar> \<le> real_of_int d * u"
    using e1 by (simp add: pow2_0 u_def)
  have f1: "0 \<le> fst x1" and s1: "0 \<le> snd x1" using e1 by simp_all
  have v1lo: "real_of_int d * (1 - u) \<le> valof x1" and v1hi: "valof x1 \<le> real_of_int d * (1 + u)"
    using v1 by (simp_all add: algebra_simps abs_le_iff)
  have v1nn: "0 \<le> valof x1" using f1 by (rule valof_nonneg)
  define m2 where "m2 = fst x1 * fst j"
  define e2 where "e2 = snd x1 + snd j"
  have m2: "0 \<le> m2" using f1 jm by (simp add: m2_def)
  have e2: "- 1074 \<le> e2" using s1 je by (simp add: e2_def)
  have p: "real_of_int m2 * pow2 e2 = valof x1 * valof j"
    unfolding m2_def e2_def by (rule valof_mult)
  have phi: "valof x1 * valof j \<le> real_of_int d * (1 + u) * (5 / 4)"
    using v1hi jv v1nn by (intro mult_mono) simp_all
  have plo: "real_of_int d * (1 - u) * (3 / 4) \<le> valof x1 * valof j"
  proof -
    have "real_of_int d * (1 - u) * (3 / 4) \<le> valof x1 * (3 / 4)"
      using v1lo by simp
    also have "\<dots> \<le> valof x1 * valof j"
      using jv(1) v1nn by (intro mult_left_mono) simp_all
    finally show ?thesis .
  qed
  have pnn: "0 \<le> valof x1 * valof j" using v1nn jv by simp
  have "real_of_int m2 * pow2 e2 * (1 + 1 / 2 ^ 53) < 2 ^ 1024"
  proof -
    have "valof x1 * valof j * (1 + u) \<le> real_of_int d * (1 + u) * (5 / 4) * (1 + u)"
      using phi u0 by (intro mult_right_mono) simp_all
    also have "\<dots> = real_of_int d * ((1 + u) * (5 / 4) * (1 + u))" by simp
    also have "\<dots> \<le> real_of_int d * 2"
      using dr by (intro mult_left_mono) (simp_all add: uv)
    also have "\<dots> < 2 * B" using dB by simp
    finally show ?thesis by (simp only: p u_def B2)
  qed
  then obtain x2 where x2: "round64 m2 e2 = Some x2"
    using round64_returns [OF m2 e2] by blast
  note r2 = round64_Some_error [OF m2 e2 x2]
  have v2: "\<bar>valof x2 - valof x1 * valof j\<bar> \<le> valof x1 * valof j * u"
    using r2 by (simp add: p u_def)
  have f2: "0 \<le> fst x2" using r2 by simp
  have v2lo: "valof x1 * valof j * (1 - u) \<le> valof x2"
    and v2hi: "valof x2 \<le> valof x1 * valof j * (1 + u)"
    using v2 by (simp_all add: algebra_simps abs_le_iff)
  have lo: "real_of_int d * (3 / 4) * (1 - 1 / 2 ^ 52) \<le> valof x2"
  proof -
    have "real_of_int d * (3 / 4) * (1 - 1 / 2 ^ 52) \<le> real_of_int d * ((1 - u) * (3 / 4) * (1 - u))"
      using dr unfolding mult.assoc by (intro mult_left_mono) (simp_all add: uv)
    also have "\<dots> = real_of_int d * (1 - u) * (3 / 4) * (1 - u)" by simp
    also have "\<dots> \<le> valof x1 * valof j * (1 - u)"
      using plo by (intro mult_right_mono) (simp_all add: uv)
    also have "\<dots> \<le> valof x2" by (rule v2lo)
    finally show ?thesis .
  qed
  have hi: "valof x2 \<le> real_of_int d * (5 / 4) * (1 + 1 / 2 ^ 51)"
  proof -
    have "valof x2 \<le> valof x1 * valof j * (1 + u)" by (rule v2hi)
    also have "\<dots> \<le> real_of_int d * (1 + u) * (5 / 4) * (1 + u)"
      using phi u0 by (intro mult_right_mono) simp_all
    also have "\<dots> = real_of_int d * ((1 + u) * (5 / 4) * (1 + u))" by simp
    also have "\<dots> \<le> real_of_int d * ((5 / 4) * (1 + 1 / 2 ^ 51))"
      using dr by (intro mult_left_mono) (simp_all add: uv)
    finally show ?thesis by (simp only: mult.assoc)
  qed
  have near: "\<bar>valof x2 - real_of_int d * valof j\<bar> \<le> real_of_int d * valof j / 2 ^ 51"
  proof -
    define w where "w = real_of_int d * valof j"
    have wnn: "0 \<le> w" using dr jv by (simp add: w_def)
    have a: "\<bar>valof x1 * valof j - w\<bar> \<le> w * u"
    proof -
      have "\<bar>valof x1 * valof j - w\<bar> = \<bar>valof x1 - real_of_int d\<bar> * valof j"
        using jv by (simp add: w_def left_diff_distrib [symmetric] abs_mult)
      also have "\<dots> \<le> real_of_int d * u * valof j"
        using v1 jv by (intro mult_right_mono) simp_all
      finally show ?thesis by (simp add: w_def ac_simps)
    qed
    then have b: "valof x1 * valof j \<le> w * (1 + u)"
      by (simp add: algebra_simps abs_le_iff)
    have "valof x1 * valof j * u \<le> w * (1 + u) * u"
      using b u0 by (intro mult_right_mono) simp_all
    then have c: "\<bar>valof x2 - valof x1 * valof j\<bar> \<le> w * (1 + u) * u"
      using v2 by linarith
    have "\<bar>valof x2 - w\<bar> \<le> \<bar>valof x2 - valof x1 * valof j\<bar> + \<bar>valof x1 * valof j - w\<bar>"
      by linarith
    also have "\<dots> \<le> w * (1 + u) * u + w * u" using a c by linarith
    also have "\<dots> = w * ((1 + u) * u + u)" by (simp add: algebra_simps)
    also have "\<dots> \<le> w * (1 / 2 ^ 51)"
      using wnn by (intro mult_left_mono) (simp_all add: uv)
    finally show ?thesis by (simp add: w_def)
  qed
  have "float_mul x1 j = Some x2"
    using x2 by (simp add: float_mul_def m2_def e2_def)
  then show ?thesis using x1 f2 lo hi near by blast
qed

subsection \<open>Sorted sets\<close>

lemma zscore_zrem: "zscore (zrem z m) m = None"
  by (auto simp: zscore_def zrem_def map_of_eq_None_iff)

lemma zscore_None_iff: "zscore z m = None \<longleftrightarrow> m \<notin> fst ` set z"
  by (simp add: zscore_def map_of_eq_None_iff)

lemma zscore_zadd_same: "zscore (zadd z m sc) m = Some sc"
  by (simp add: zscore_def zadd_def)

lemma map_of_filter_other: "j \<noteq> k \<Longrightarrow> map_of (filter (\<lambda>e. fst e \<noteq> k) z) j = map_of z j"
  by (induction z) auto

lemma zscore_zadd_other: "j \<noteq> k \<Longrightarrow> zscore (zadd z k sc) j = zscore z j"
  by (simp add: zscore_def zadd_def map_of_filter_other)

lemma zscore_zrem_other: "j \<noteq> k \<Longrightarrow> zscore (zrem z k) j = zscore z j"
  by (simp add: zscore_def zrem_def map_of_filter_other)

lemma distinct_zrem: "distinct (map fst z) \<Longrightarrow> distinct (map fst (zrem z k))"
  by (simp add: zrem_def distinct_map_filter)

lemma distinct_zadd: "distinct (map fst z) \<Longrightarrow> distinct (map fst (zadd z k sc))"
  by (auto simp: zadd_def distinct_map_filter)

lemma zscore_mem: "zscore z m = Some sc \<Longrightarrow> (m, sc) \<in> set z"
  by (simp add: zscore_def map_of_SomeD)

lemma zscore_distinct: "distinct (map fst z) \<Longrightarrow> (m, sc) \<in> set z \<Longrightarrow> zscore z m = Some sc"
  by (simp add: zscore_def)

lemma set_zinsert: "set (zinsert e xs) = insert e (set xs)"
  by (induction xs) auto

lemma set_zsorted: "set (zsorted z) = set z"
  by (induction z) (simp_all add: zsorted_def set_zinsert)

lemma set_zrangebyscore:
  "set (zrangebyscore z lo hi) = fst ` {e \<in> set z. in_range lo hi e}"
  by (simp add: zrangebyscore_def set_zsorted)

lemma zrangebyscore_subset: "set (zrangebyscore z lo hi) \<subseteq> fst ` set z"
  unfolding set_zrangebyscore by auto

lemma set_zremrangebyscore:
  "set (zremrangebyscore z lo hi) = {e \<in> set z. \<not> in_range lo hi e}"
  by (auto simp: zremrangebyscore_def)

lemma zrangebyscore_Nil_iff:
  "zrangebyscore z lo hi = [] \<longleftrightarrow> (\<forall>e \<in> set z. \<not> in_range lo hi e)"
proof -
  have "zrangebyscore z lo hi = [] \<longleftrightarrow> set (zrangebyscore z lo hi) = {}" by simp
  also have "\<dots> \<longleftrightarrow> (\<forall>e \<in> set z. \<not> in_range lo hi e)"
    unfolding set_zrangebyscore by auto
  finally show ?thesis .
qed

lemma zremrangebyscore_none:
  "\<forall>e \<in> set z. \<not> in_range lo hi e \<Longrightarrow> zremrangebyscore z lo hi = z"
  by (simp add: zremrangebyscore_def)

lemma hdel_all_Nil_range:
  "zrangebyscore z lo hi = [] \<Longrightarrow> hdel_all (zrangebyscore z lo hi) m = m"
  by simp

lemma hdel_all_apply: "hdel_all ids m k = (if k \<in> set ids then None else m k)"
  by (induction ids arbitrary: m) auto

lemma zle_refl: "zle a a"
  by (cases a) simp

lemma zle_trans: "zle a b \<Longrightarrow> zle b c \<Longrightarrow> zle a c"
  by (cases a; cases b; cases c) auto

lemma zle_total: "zle a b \<or> zle b a"
  by (cases a; cases b) auto

lemma zmax_mem: "zmax e xs \<in> set (e # xs)"
  by (induction xs arbitrary: e) (simp, fastforce)

lemma zmax_ge_start: "zle e (zmax e xs)"
proof (induction xs arbitrary: e)
  case Nil
  show ?case by (simp add: zle_refl)
next
  case (Cons x xs)
  show ?case
  proof (cases "zle e x")
    case True
    then show ?thesis using Cons [of x] by (auto intro: zle_trans)
  next
    case False
    then show ?thesis using Cons [of e] by simp
  qed
qed

lemma zmax_ge: "x \<in> set (e # xs) \<Longrightarrow> zle x (zmax e xs)"
proof (induction xs arbitrary: e)
  case Nil
  then show ?case by (simp add: zle_refl)
next
  case (Cons y ys)
  show ?case
  proof (cases "zle e y")
    case True
    have "x = e \<or> x \<in> set (y # ys)" using Cons.prems by auto
    then show ?thesis
    proof
      assume "x = e"
      then have "zle x y" using True by simp
      then show ?thesis using True zmax_ge_start [of y ys] by (auto intro: zle_trans)
    next
      assume "x \<in> set (y # ys)"
      then show ?thesis using True Cons.IH [of y] by simp
    qed
  next
    case False
    then have ye: "zle y e" using zle_total [of e y] by simp
    have "x = y \<or> x \<in> set (e # ys)" using Cons.prems by auto
    then show ?thesis
    proof
      assume "x = y"
      then show ?thesis using False ye zmax_ge_start [of e ys] by (auto intro: zle_trans)
    next
      assume "x \<in> set (e # ys)"
      then show ?thesis using False Cons.IH [of e] by simp
    qed
  qed
qed

lemma zpopmax_Some:
  assumes "zpopmax z = Some (m, rest)"
  shows "m \<in> set z \<and> (\<forall>x \<in> set z. zle x m) \<and> rest = zrem z (fst m)"
proof (cases z)
  case Nil
  then show ?thesis using assms by (simp add: zpopmax_def)
next
  case (Cons e es)
  then have m: "m = zmax e es" and r: "rest = zrem z (fst m)"
    using assms by (auto simp: zpopmax_def Let_def)
  show ?thesis
    using m r Cons zmax_mem [of e es] zmax_ge [of _ e es] by auto
qed

lemma zpopmax_None: "zpopmax z = None \<longleftrightarrow> z = []"
  by (cases z) (simp_all add: zpopmax_def Let_def)

lemma zpopmax_not_lower:
  assumes d: "distinct (map fst z)"
    and a: "zscore z j1 = Some sc1" and b: "zscore z j2 = Some sc2"
    and lt: "sc1 < sc2 \<or> (sc1 = sc2 \<and> j1 < j2)"
    and p: "zpopmax z = Some (m, rest)"
  shows "fst m \<noteq> j1 \<and> zscore rest j1 = Some sc1 \<and> (fst m = j2 \<or> zscore rest j2 = Some sc2)"
proof -
  note pm = zpopmax_Some [OF p]
  have "zle (j2, sc2) m" using pm zscore_mem [OF b] by blast
  then have ge: "sc2 < snd m \<or> (sc2 = snd m \<and> j2 \<le> fst m)" by (cases m) auto
  have ne: "fst m \<noteq> j1"
  proof
    assume e: "fst m = j1"
    then have "(j1, snd m) \<in> set z" using pm by (cases m) auto
    then have "zscore z j1 = Some (snd m)" using d by (rule zscore_distinct [rotated])
    then have "snd m = sc1" using a by simp
    then show False using ge lt e by auto
  qed
  have r1: "zscore rest j1 = Some sc1"
    using ne pm a zscore_zrem_other [of j1 "fst m" z] by auto
  have r2: "zscore rest j2 = Some sc2" if "fst m \<noteq> j2"
    using that pm b zscore_zrem_other [of j2 "fst m" z] by auto
  show ?thesis using ne r1 r2 by blast
qed




lemma mem_zrangebyscore_zscore:
  "zscore z k = Some sc \<Longrightarrow> lo \<le> sc \<Longrightarrow> sc \<le> hi \<Longrightarrow> k \<in> set (zrangebyscore z lo hi)"
  unfolding set_zrangebyscore using zscore_mem [of z k sc] by (force simp: in_range_def)


subsection \<open>Enqueue, promotion and dequeue\<close>

lemma enqueue_new_fst: "fst (enqueue_new now tz job s) = jid job"
  by (simp add: enqueue_new_def Let_def)

lemma enqueue_new_idempotency:
  "idempotency (snd (enqueue_new now tz job s)) = (idempotency s)(idempotency_key job \<mapsto> jid job)"
  by (simp add: enqueue_new_def Let_def)

lemma enqueue_new_jobs:
  "jobs (snd (enqueue_new now tz job s)) = (jobs s)(jid job \<mapsto> job)"
  by (simp add: enqueue_new_def Let_def)

lemma keyed_by_id_empty: "keyed_by_id empty_state"
  by (simp add: keyed_by_id_def empty_state_def)

lemma keyed_by_id_enqueue: "keyed_by_id s \<Longrightarrow> keyed_by_id (snd (enqueue now tz job s))"
  by (auto simp: keyed_by_id_def enqueue_def enqueue_new_jobs split: option.splits)

lemma promote_scheduled_pending_other:
  "j \<noteq> k \<Longrightarrow> zscore (pending_queue (promote_scheduled now k s)) j = zscore (pending_queue s) j"
  by (simp add: promote_scheduled_def zscore_zadd_other split: option.splits)

lemma promote_scheduled_distinct:
  "distinct (map fst (pending_queue s)) \<Longrightarrow> distinct (map fst (pending_queue (promote_scheduled now k s)))"
  by (simp add: promote_scheduled_def distinct_zadd split: option.splits)

lemma promote_scheduled_jobs: "jobs (promote_scheduled now k s) = jobs s"
  by (simp add: promote_scheduled_def split: option.splits)

lemma promote_scheduled_retry: "retry_queue (promote_scheduled now k s) = retry_queue s"
  by (simp add: promote_scheduled_def split: option.splits)

lemma fold_promote_scheduled_pending_other:
  "j \<notin> set ids \<Longrightarrow>
     zscore (pending_queue (fold (promote_scheduled now) ids s)) j = zscore (pending_queue s) j"
  by (induction ids arbitrary: s) (simp_all add: promote_scheduled_pending_other)

lemma fold_promote_scheduled_distinct:
  "distinct (map fst (pending_queue s)) \<Longrightarrow>
     distinct (map fst (pending_queue (fold (promote_scheduled now) ids s)))"
  by (induction ids arbitrary: s) (simp_all add: promote_scheduled_distinct)

lemma fold_promote_scheduled_jobs: "jobs (fold (promote_scheduled now) ids s) = jobs s"
  by (induction ids arbitrary: s) (simp_all add: promote_scheduled_jobs)

lemma fold_promote_scheduled_retry: "retry_queue (fold (promote_scheduled now) ids s) = retry_queue s"
  by (induction ids arbitrary: s) (simp_all add: promote_scheduled_retry)

lemma promote_retry_pending_other:
  "j \<noteq> k \<Longrightarrow> zscore (pending_queue (promote_retry now k s)) j = zscore (pending_queue s) j"
  by (simp add: promote_retry_def update_job_def zscore_zadd_other Let_def split: option.splits)

lemma promote_retry_distinct:
  "distinct (map fst (pending_queue s)) \<Longrightarrow> distinct (map fst (pending_queue (promote_retry now k s)))"
  by (simp add: promote_retry_def update_job_def distinct_zadd Let_def split: option.splits)

lemma promote_retry_keyed: "keyed_by_id s \<Longrightarrow> keyed_by_id (promote_retry now k s)"
  by (auto simp: promote_retry_def update_job_def get_job_def keyed_by_id_def Let_def
      split: option.splits)

lemma fold_promote_retry_pending_other:
  "j \<notin> set ids \<Longrightarrow>
     zscore (pending_queue (fold (promote_retry now) ids s)) j = zscore (pending_queue s) j"
  by (induction ids arbitrary: s) (simp_all add: promote_retry_pending_other)

lemma fold_promote_retry_distinct:
  "distinct (map fst (pending_queue s)) \<Longrightarrow>
     distinct (map fst (pending_queue (fold (promote_retry now) ids s)))"
  by (induction ids arbitrary: s) (simp_all add: promote_retry_distinct)

lemma fold_promote_retry_keyed:
  "keyed_by_id s \<Longrightarrow> keyed_by_id (fold (promote_retry now) ids s)"
  by (induction ids arbitrary: s) (simp_all add: promote_retry_keyed)

lemma move_scheduled_jobs_pending_other:
  assumes "zscore (scheduled_queue s) j = None" and "zscore (retry_queue s) j = None"
  shows "zscore (pending_queue (move_scheduled_jobs now s)) j = zscore (pending_queue s) j"
proof -
  have a: "j \<notin> set (zrangebyscore (scheduled_queue s) 0 now)"
    using assms(1) zrangebyscore_subset [of "scheduled_queue s" 0 now]
    by (auto simp: zscore_None_iff)
  have b: "j \<notin> set (zrangebyscore (retry_queue s) 0 now)"
    using assms(2) zrangebyscore_subset [of "retry_queue s" 0 now]
    by (auto simp: zscore_None_iff)
  show ?thesis
    using a b
    by (simp add: move_scheduled_jobs_def Let_def fold_promote_scheduled_retry
        fold_promote_retry_pending_other fold_promote_scheduled_pending_other)
qed

lemma move_scheduled_jobs_distinct:
  "distinct (map fst (pending_queue s)) \<Longrightarrow>
     distinct (map fst (pending_queue (move_scheduled_jobs now s)))"
  by (simp add: move_scheduled_jobs_def Let_def fold_promote_retry_distinct
      fold_promote_scheduled_distinct)

lemma move_scheduled_jobs_keyed: "keyed_by_id s \<Longrightarrow> keyed_by_id (move_scheduled_jobs now s)"
proof -
  assume k: "keyed_by_id s"
  have "keyed_by_id (fold (promote_scheduled now) ids s)" for ids
    using k by (simp add: keyed_by_id_def fold_promote_scheduled_jobs)
  then show ?thesis
    by (simp add: move_scheduled_jobs_def Let_def fold_promote_retry_keyed)
qed

lemma dequeue_cases:
  assumes "zpopmax (pending_queue (move_scheduled_jobs now s)) = Some (m, rest)"
  shows "dequeue now s =
     (case jobs (move_scheduled_jobs now s) (fst m) of
        None \<Rightarrow> (None, (move_scheduled_jobs now s)\<lparr>pending_queue := rest\<rparr>)
      | Some job \<Rightarrow>
          (Some (job\<lparr>status := PROCESSING, started_at := Some now\<rparr>),
           (move_scheduled_jobs now s)
             \<lparr>pending_queue := rest,
              jobs := (jobs (move_scheduled_jobs now s))
                 (jid job \<mapsto> job\<lparr>status := PROCESSING, started_at := Some now\<rparr>),
              processing_queue :=
                 zadd (processing_queue (move_scheduled_jobs now s)) (fst m)
                   (of_int (py_int now))\<rparr>))"
  using assms by (simp add: dequeue_def get_job_def update_job_def Let_def split: option.splits)

lemma cleanup_old_jobs_eq:
  "cleanup_old_jobs now days s =
     s\<lparr>completed_queue :=
          zremrangebyscore (completed_queue s) 0 (now - of_int (days * 24 * 60 * 60)),
       failed_queue :=
          zremrangebyscore (failed_queue s) 0 (now - of_int (days * 24 * 60 * 60)),
       jobs :=
          hdel_all (zrangebyscore (failed_queue s) 0 (now - of_int (days * 24 * 60 * 60)))
            (hdel_all (zrangebyscore (completed_queue s) 0 (now - of_int (days * 24 * 60 * 60)))
               (jobs s))\<rparr>"
proof -
  define c where "c = now - real_of_int (days * 24 * 60 * 60)"
  have a: "zremrangebyscore z 0 c = z" if "zrangebyscore z 0 c = []" for z
    using that by (simp add: zrangebyscore_Nil_iff zremrangebyscore_none)
  show ?thesis
    unfolding cleanup_old_jobs_def c_def [symmetric] Let_def
    by (cases "zrangebyscore (completed_queue s) 0 c = []";
        cases "zrangebyscore (failed_queue s) 0 c = []") (simp_all add: a)
qed

lemma pending_score_priority:
  "priority J' = priority J \<Longrightarrow> pending_score t J' = pending_score t J"
  by (simp add: pending_score_def)

lemma enqueue_pending_score:
  assumes "idempotency s (idempotency_key J) = None" and "scheduled_at J \<le> t"
  shows "zscore (pending_queue (snd (enqueue t tz J s))) (jid J) = Some (pending_score t J)"
  using assms by (simp add: enqueue_def enqueue_new_def Let_def zscore_zadd_same)

lemma promote_scheduled_sets:
  "jobs s k = Some J \<Longrightarrow>
     zscore (pending_queue (promote_scheduled t k s)) k = Some (pending_score t J)
   \<and> zscore (scheduled_queue (promote_scheduled t k s)) k = None"
  by (simp add: promote_scheduled_def get_job_def zscore_zadd_same zscore_zrem)

lemma promote_scheduled_scheduled_other:
  "i \<noteq> k \<Longrightarrow> zscore (scheduled_queue (promote_scheduled t i s)) k = zscore (scheduled_queue s) k"
  by (simp add: promote_scheduled_def zscore_zrem_other split: option.splits)

lemma fold_promote_scheduled_sets:
  "jobs s k = Some J \<Longrightarrow>
   k \<in> set ids \<or> (zscore (pending_queue s) k = Some (pending_score t J)
                    \<and> zscore (scheduled_queue s) k = None) \<Longrightarrow>
     zscore (pending_queue (fold (promote_scheduled t) ids s)) k = Some (pending_score t J)
   \<and> zscore (scheduled_queue (fold (promote_scheduled t) ids s)) k = None"
proof (induction ids arbitrary: s)
  case Nil
  then show ?case by simp
next
  case (Cons i ids)
  let ?s = "promote_scheduled t i s"
  have j: "jobs ?s k = Some J" using Cons.prems(1) by (simp add: promote_scheduled_jobs)
  have "k \<in> set ids \<or> (zscore (pending_queue ?s) k = Some (pending_score t J)
                    \<and> zscore (scheduled_queue ?s) k = None)"
  proof (cases "i = k")
    case True
    then show ?thesis using promote_scheduled_sets [OF Cons.prems(1), of t] by simp
  next
    case False
    then have "zscore (pending_queue ?s) k = zscore (pending_queue s) k"
      and "zscore (scheduled_queue ?s) k = zscore (scheduled_queue s) k"
      by (simp_all add: promote_scheduled_pending_other promote_scheduled_scheduled_other)
    then show ?thesis using Cons.prems(2) False by auto
  qed
  then show ?case using Cons.IH [OF j] by simp
qed

lemma promote_retry_scheduled: "scheduled_queue (promote_retry t i s) = scheduled_queue s"
  by (simp add: promote_retry_def update_job_def Let_def split: option.splits)

lemma fold_promote_retry_scheduled:
  "scheduled_queue (fold (promote_retry t) ids s) = scheduled_queue s"
  by (induction ids arbitrary: s) (simp_all add: promote_retry_scheduled)

lemma promote_retry_retry_other:
  "i \<noteq> k \<Longrightarrow> zscore (retry_queue (promote_retry t i s)) k = zscore (retry_queue s) k"
  by (simp add: promote_retry_def update_job_def zscore_zrem_other Let_def split: option.splits)

lemma promote_retry_jobs_other:
  "keyed_by_id s \<Longrightarrow> k \<noteq> i \<Longrightarrow> jobs (promote_retry t i s) k = jobs s k"
  by (auto simp: promote_retry_def update_job_def get_job_def keyed_by_id_def Let_def
      split: option.splits)

lemma fold_promote_retry_jobs_other:
  "keyed_by_id s \<Longrightarrow> k \<notin> set ids \<Longrightarrow> jobs (fold (promote_retry t) ids s) k = jobs s k"
  by (induction ids arbitrary: s) (simp_all add: promote_retry_jobs_other promote_retry_keyed)

lemma promote_retry_priority:
  "keyed_by_id s \<Longrightarrow>
     map_option priority (jobs (promote_retry t i s) k) = map_option priority (jobs s k)"
  by (auto simp: promote_retry_def update_job_def get_job_def keyed_by_id_def Let_def
      split: option.splits)

lemma promote_retry_sets:
  assumes "keyed_by_id s" and "map_option priority (jobs s k) = Some pr"
  shows "zscore (pending_queue (promote_retry t k s)) k
           = Some (of_int (priority_value pr * 1000 + py_int t))
       \<and> zscore (retry_queue (promote_retry t k s)) k = None"
proof -
  obtain J where J: "jobs s k = Some J" and p: "priority J = pr" using assms(2) by auto
  show ?thesis
    using J p
    by (simp add: promote_retry_def get_job_def update_job_def Let_def zscore_zadd_same
        zscore_zrem pending_score_def)
qed

lemma fold_promote_retry_sets:
  "keyed_by_id s \<Longrightarrow> map_option priority (jobs s k) = Some pr \<Longrightarrow>
   k \<in> set ids \<or> (zscore (pending_queue s) k = Some (of_int (priority_value pr * 1000 + py_int t))
                    \<and> zscore (retry_queue s) k = None) \<Longrightarrow>
     zscore (pending_queue (fold (promote_retry t) ids s)) k
       = Some (of_int (priority_value pr * 1000 + py_int t))
   \<and> zscore (retry_queue (fold (promote_retry t) ids s)) k = None"
proof (induction ids arbitrary: s)
  case Nil
  then show ?case by simp
next
  case (Cons i ids)
  let ?s = "promote_retry t i s"
  have k: "keyed_by_id ?s" using Cons.prems(1) by (rule promote_retry_keyed)
  have p: "map_option priority (jobs ?s k) = Some pr"
    using Cons.prems(1,2) by (simp add: promote_retry_priority)
  have "k \<in> set ids \<or> (zscore (pending_queue ?s) k = Some (of_int (priority_value pr * 1000 + py_int t))
                    \<and> zscore (retry_queue ?s) k = None)"
  proof (cases "i = k")
    case True
    then show ?thesis using promote_retry_sets [OF Cons.prems(1,2), of t] by simp
  next
    case False
    then have "zscore (pending_queue ?s) k = zscore (pending_queue s) k"
      and "zscore (retry_queue ?s) k = zscore (retry_queue s) k"
      by (simp_all add: promote_retry_pending_other promote_retry_retry_other)
    then show ?thesis using Cons.prems(3) False by auto
  qed
  then show ?case using Cons.IH [OF k p] by simp
qed

lemma fold_promote_retry_pending_kept:
  "keyed_by_id s \<Longrightarrow> map_option priority (jobs s k) = Some pr \<Longrightarrow>
   zscore (pending_queue s) k = Some (of_int (priority_value pr * 1000 + py_int t)) \<Longrightarrow>
     zscore (pending_queue (fold (promote_retry t) ids s)) k
       = Some (of_int (priority_value pr * 1000 + py_int t))"
proof (induction ids arbitrary: s)
  case Nil
  then show ?case by simp
next
  case (Cons i ids)
  let ?s = "promote_retry t i s"
  have k: "keyed_by_id ?s" using Cons.prems(1) by (rule promote_retry_keyed)
  have p: "map_option priority (jobs ?s k) = Some pr"
    using Cons.prems(1,2) by (simp add: promote_retry_priority)
  have "zscore (pending_queue ?s) k = Some (of_int (priority_value pr * 1000 + py_int t))"
  proof (cases "i = k")
    case True
    then show ?thesis using promote_retry_sets [OF Cons.prems(1,2), of t] by simp
  next
    case False
    then show ?thesis using Cons.prems(3) by (simp add: promote_retry_pending_other)
  qed
  then show ?case using Cons.IH [OF k p] by simp
qed

lemma keyed_by_id_fold_promote_scheduled:
  "keyed_by_id s \<Longrightarrow> keyed_by_id (fold (promote_scheduled t) ids s)"
  by (simp add: keyed_by_id_def fold_promote_scheduled_jobs)

lemma move_scheduled_jobs_promotes_scheduled:
  assumes k: "keyed_by_id s" and J: "jobs s i = Some J"
    and sc: "zscore (scheduled_queue s) i = Some sc" "0 \<le> sc" "sc \<le> t"
  shows "zscore (pending_queue (move_scheduled_jobs t s)) i = Some (pending_score t J)
       \<and> zscore (scheduled_queue (move_scheduled_jobs t s)) i = None"
proof -
  let ?s1 = "fold (promote_scheduled t) (zrangebyscore (scheduled_queue s) 0 t) s"
  have m: "i \<in> set (zrangebyscore (scheduled_queue s) 0 t)"
    using sc by (rule mem_zrangebyscore_zscore)
  have a: "zscore (pending_queue ?s1) i = Some (pending_score t J)
         \<and> zscore (scheduled_queue ?s1) i = None"
    using fold_promote_scheduled_sets [OF J] m by blast
  have k1: "keyed_by_id ?s1" using k by (rule keyed_by_id_fold_promote_scheduled)
  have p1: "map_option priority (jobs ?s1 i) = Some (priority J)"
    using J by (simp add: fold_promote_scheduled_jobs)
  have "zscore (pending_queue (fold (promote_retry t) ids ?s1)) i = Some (pending_score t J)" for ids
    using fold_promote_retry_pending_kept [OF k1 p1, of t ids] a by (simp add: pending_score_def)
  then show ?thesis
    using a by (simp add: move_scheduled_jobs_def Let_def fold_promote_retry_scheduled)
qed

lemma move_scheduled_jobs_promotes_retry:
  assumes k: "keyed_by_id s" and J: "jobs s i = Some J"
    and sc: "zscore (retry_queue s) i = Some sc" "0 \<le> sc" "sc \<le> t"
  shows "zscore (pending_queue (move_scheduled_jobs t s)) i = Some (pending_score t J)
       \<and> zscore (retry_queue (move_scheduled_jobs t s)) i = None"
proof -
  let ?s1 = "fold (promote_scheduled t) (zrangebyscore (scheduled_queue s) 0 t) s"
  have r: "retry_queue ?s1 = retry_queue s" by (rule fold_promote_scheduled_retry)
  have m: "i \<in> set (zrangebyscore (retry_queue ?s1) 0 t)"
    unfolding r using sc by (rule mem_zrangebyscore_zscore)
  have k1: "keyed_by_id ?s1" using k by (rule keyed_by_id_fold_promote_scheduled)
  have p1: "map_option priority (jobs ?s1 i) = Some (priority J)"
    using J by (simp add: fold_promote_scheduled_jobs)
  show ?thesis
    using fold_promote_retry_sets [OF k1 p1, of _ t] m
    by (simp add: move_scheduled_jobs_def Let_def pending_score_def)
qed

lemma move_scheduled_jobs_jobs_other:
  assumes "keyed_by_id s" and "zscore (retry_queue s) k = None"
  shows "jobs (move_scheduled_jobs now s) k = jobs s k"
proof -
  let ?s1 = "fold (promote_scheduled now) (zrangebyscore (scheduled_queue s) 0 now) s"
  have r: "retry_queue ?s1 = retry_queue s" by (rule fold_promote_scheduled_retry)
  have n: "k \<notin> set (zrangebyscore (retry_queue ?s1) 0 now)"
    unfolding r using assms(2) zrangebyscore_subset [of "retry_queue s" 0 now]
    by (auto simp: zscore_None_iff)
  have k1: "keyed_by_id ?s1" using assms(1) by (rule keyed_by_id_fold_promote_scheduled)
  show ?thesis
    using fold_promote_retry_jobs_other [OF k1 n]
    by (simp add: move_scheduled_jobs_def Let_def fold_promote_scheduled_jobs)
qed

lemma dequeue_not_lower:
  assumes d: "distinct (map fst (pending_queue s))" and k: "keyed_by_id s"
    and r2: "jobs s i2 = Some J"
    and a: "zscore (pending_queue s) i1 = Some sc1" and b: "zscore (pending_queue s) i2 = Some sc2"
    and w: "zscore (scheduled_queue s) i1 = None" "zscore (retry_queue s) i1 = None"
      "zscore (scheduled_queue s) i2 = None" "zscore (retry_queue s) i2 = None"
    and lt: "sc1 < sc2 \<or> (sc1 = sc2 \<and> i1 < i2)"
  shows "zscore (pending_queue (snd (dequeue now s))) i1 = Some sc1
       \<and> (\<forall>job. fst (dequeue now s) = Some job \<longrightarrow> jid job \<noteq> i1)
       \<and> (map_option jid (fst (dequeue now s)) = Some i2
          \<or> zscore (pending_queue (snd (dequeue now s))) i2 = Some sc2)"
proof -
  let ?s1 = "move_scheduled_jobs now s"
  have p1: "zscore (pending_queue ?s1) i1 = Some sc1"
    using move_scheduled_jobs_pending_other [OF w(1,2)] a by simp
  have p2: "zscore (pending_queue ?s1) i2 = Some sc2"
    using move_scheduled_jobs_pending_other [OF w(3,4)] b by simp
  have d1: "distinct (map fst (pending_queue ?s1))"
    using d by (rule move_scheduled_jobs_distinct)
  have k1: "keyed_by_id ?s1"
    using k by (rule move_scheduled_jobs_keyed)
  have j2: "jobs ?s1 i2 = Some J"
    using move_scheduled_jobs_jobs_other [OF k w(4)] r2 by simp
  have "pending_queue ?s1 \<noteq> []" using zscore_mem [OF p1] by auto
  then obtain m rest where pop: "zpopmax (pending_queue ?s1) = Some (m, rest)"
    using zpopmax_None [of "pending_queue ?s1"] by (cases "zpopmax (pending_queue ?s1)") auto
  note nl = zpopmax_not_lower [OF d1 p1 p2 lt pop]
  show ?thesis
  proof (cases "jobs ?s1 (fst m)")
    case None
    then have "fst m \<noteq> i2" using j2 by auto
    then show ?thesis using nl None by (simp add: dequeue_cases [OF pop])
  next
    case (Some job)
    then have "jid job = fst m" using k1 by (simp add: keyed_by_id_def)
    then show ?thesis using nl Some by (auto simp: dequeue_cases [OF pop])
  qed
qed

subsection \<open>Records stay under their ids\<close>

lemma keyed_by_id_store:
  "keyed_by_id s \<Longrightarrow> jobs s' = (jobs s)(jid j \<mapsto> j) \<Longrightarrow> keyed_by_id s'"
  by (simp add: keyed_by_id_def)

lemma keyed_by_id_same: "jobs s' = jobs s \<Longrightarrow> keyed_by_id s' = keyed_by_id s"
  by (simp add: keyed_by_id_def)

lemma keyed_by_id_dequeue:
  assumes "keyed_by_id s"
  shows "keyed_by_id (snd (dequeue now s))"
proof -
  have m: "keyed_by_id (move_scheduled_jobs now s)"
    using assms by (rule move_scheduled_jobs_keyed)
  show ?thesis
  proof (cases "zpopmax (pending_queue (move_scheduled_jobs now s))")
    case None
    then show ?thesis using m by (simp add: dequeue_def Let_def)
  next
    case (Some a)
    obtain e rest where a: "a = (e, rest)" by (cases a)
    show ?thesis
      using m unfolding dequeue_cases [OF Some [unfolded a]]
      by (auto simp: keyed_by_id_def split: option.splits)
  qed
qed

lemma keyed_by_id_complete_job: "keyed_by_id s \<Longrightarrow> keyed_by_id (complete_job now k res s)"
  by (auto simp: complete_job_def update_job_def get_job_def keyed_by_id_def Let_def
      split: option.splits)

lemma keyed_by_id_fail_job:
  "keyed_by_id s \<Longrightarrow> keyed_by_id (snd (fail_job now tz jitter k msg s))"
  by (auto simp: fail_job_def update_job_def get_job_def keyed_by_id_def Let_def
      split: option.splits sum.splits)

lemma keyed_by_id_cancel_job: "keyed_by_id s \<Longrightarrow> keyed_by_id (snd (cancel_job now k s))"
  by (auto simp: cancel_job_def update_job_def get_job_def keyed_by_id_def Let_def
      split: option.splits)

lemma keyed_by_id_cleanup: "keyed_by_id s \<Longrightarrow> keyed_by_id (cleanup_old_jobs now days s)"
  unfolding cleanup_old_jobs_eq by (auto simp: keyed_by_id_def hdel_all_apply split: if_splits)

lemma snd_report_failure:
  "snd (report_failure now tz jitter k msg s) = snd (fail_job now tz jitter k msg s)"
  by (simp add: report_failure_def split: prod.splits sum.splits)

lemma keyed_by_id_run_handler:
  "keyed_by_id s \<Longrightarrow> keyed_by_id (snd (run_handler job_handlers now tz jitter job s))"
  by (simp add: run_handler_def snd_report_failure keyed_by_id_fail_job keyed_by_id_complete_job
      split: option.splits sum.splits)

lemma keyed_by_id_reschedule: "keyed_by_id s \<Longrightarrow> keyed_by_id (reschedule tz t job s)"
  by (auto simp: reschedule_def update_job_def keyed_by_id_def Let_def)

lemma keyed_by_id_process_job:
  assumes "keyed_by_id s"
  shows "keyed_by_id (snd (process_job job_handlers now tz jitter job s))"
proof -
  have k: "keyed_by_id (s\<lparr>rate_keys := kv\<rparr>)" for kv
    using assms by (simp add: keyed_by_id_def)
  show ?thesis
    using assms k
    by (simp add: process_job_def Let_def keyed_by_id_run_handler keyed_by_id_reschedule
        snd_report_failure keyed_by_id_fail_job split: option.splits prod.splits)
qed

lemma keyed_by_id_worker_iteration:
  assumes "keyed_by_id s"
  shows "keyed_by_id (worker_iteration job_handlers now tz jitter s)"
proof (cases "dequeue now s")
  case (Pair r s')
  have d: "keyed_by_id s'"
    using keyed_by_id_dequeue [OF assms, of now] Pair by simp
  show ?thesis
    using d keyed_by_id_process_job [OF d]
    by (cases r) (simp_all add: worker_iteration_def Pair)
qed

lemma keyed_by_id_apply_operation: "keyed_by_id s \<Longrightarrow> keyed_by_id (apply_operation op s)"
  by (cases op)
     (simp_all add: keyed_by_id_enqueue keyed_by_id_dequeue keyed_by_id_complete_job
        keyed_by_id_fail_job keyed_by_id_cancel_job keyed_by_id_process_job
        keyed_by_id_cleanup keyed_by_id_worker_iteration)

lemma run_Cons: "run (op # ops) s = run ops (apply_operation op s)"
  by (simp add: run_def)

lemma run_Nil: "run [] s = s"
  by (simp add: run_def)

lemma keyed_by_id_run: "keyed_by_id s \<Longrightarrow> keyed_by_id (run ops s)"
  by (induction ops arbitrary: s) (simp_all add: run_Nil run_Cons keyed_by_id_apply_operation)

subsection \<open>Cancellation\<close>

text \<open>
  C1 (as amended). \<open>cancel_job\<close> refuses exactly the terminal statuses: on a COMPLETED,
  FAILED or CANCELLED job it returns false and changes nothing; on a PENDING, QUEUED,
  PROCESSING or RETRYING job it returns true, stores the job with status CANCELLED and
  \<open>completed_at = now\<close>, and removes the id from the pending, processing, retry and
  scheduled structures.
\<close>

theorem cancel_job_refuses_terminal_only:
  assumes "jobs s job_id = Some job" and "jid job = job_id"
  shows "(status job \<in> {COMPLETED, FAILED, CANCELLED} \<longrightarrow> cancel_job now job_id s = (False, s))
       \<and> (status job \<in> {PENDING, QUEUED, PROCESSING, RETRYING} \<longrightarrow>
            fst (cancel_job now job_id s)
          \<and> jobs (snd (cancel_job now job_id s)) job_id
              = Some (job\<lparr>status := CANCELLED, completed_at := Some now\<rparr>)
          \<and> zscore (pending_queue (snd (cancel_job now job_id s))) job_id = None
          \<and> zscore (processing_queue (snd (cancel_job now job_id s))) job_id = None
          \<and> zscore (retry_queue (snd (cancel_job now job_id s))) job_id = None
          \<and> zscore (scheduled_queue (snd (cancel_job now job_id s))) job_id = None)"
proof -
  have t: "cancel_job now job_id s = (False, s)" if "status job \<in> {COMPLETED, FAILED, CANCELLED}"
    using that assms by (auto simp: cancel_job_def get_job_def)
  have n: "cancel_job now job_id s =
      (True, (update_job (job\<lparr>status := CANCELLED, completed_at := Some now\<rparr>) s)
         \<lparr>pending_queue := zrem (pending_queue s) job_id,
          processing_queue := zrem (processing_queue s) job_id,
          retry_queue := zrem (retry_queue s) job_id,
          scheduled_queue := zrem (scheduled_queue s) job_id\<rparr>)"
    if "status job \<in> {PENDING, QUEUED, PROCESSING, RETRYING}"
    using that assms by (auto simp: cancel_job_def get_job_def update_job_def Let_def)
  show ?thesis
    using t n assms(2) by (simp add: update_job_def zscore_zrem)
qed

lemma processing_state_job: "jobs processing_state ''job-1'' = Some processing_job"
  by (simp add: processing_state_def processing_job_def toy_defs queue_defs store_defs Let_def)

lemma cancelled_state_job:
  "jobs cancelled_state ''job-1'' = Some (processing_job\<lparr>status := CANCELLED, completed_at := Some 102\<rparr>)"
  by (simp add: cancelled_state_def processing_state_def processing_job_def toy_defs queue_defs
      store_defs Let_def)

theorem cancel_job_refuses_terminal_only_witness:
  "jobs processing_state ''job-1'' = Some processing_job
   \<and> jid processing_job = ''job-1''
   \<and> status processing_job \<in> {PENDING, QUEUED, PROCESSING, RETRYING}
   \<and> fst (cancel_job 102 ''job-1'' processing_state)
   \<and> jobs (snd (cancel_job 102 ''job-1'' processing_state)) ''job-1''
       = Some (processing_job\<lparr>status := CANCELLED, completed_at := Some 102\<rparr>)
   \<and> zscore (processing_queue (snd (cancel_job 102 ''job-1'' processing_state))) ''job-1'' = None
   \<and> status (processing_job\<lparr>status := CANCELLED, completed_at := Some 102\<rparr>)
       \<in> {COMPLETED, FAILED, CANCELLED}
   \<and> cancel_job 103 ''job-1'' cancelled_state = (False, cancelled_state)"
proof -
  have i: "jid processing_job = ''job-1''"
    by (simp add: processing_job_def toy_defs)
  have st: "status processing_job \<in> {PENDING, QUEUED, PROCESSING, RETRYING}"
    by (simp add: processing_job_def)
  have i': "jid (processing_job\<lparr>status := CANCELLED, completed_at := Some 102\<rparr>) = ''job-1''"
    using i by simp
  have st': "status (processing_job\<lparr>status := CANCELLED, completed_at := Some 102\<rparr>)
       \<in> {COMPLETED, FAILED, CANCELLED}"
    by simp
  note t1 = cancel_job_refuses_terminal_only
    [OF processing_state_job i, of 102, THEN conjunct2, THEN mp, OF st]
  note t2 = cancel_job_refuses_terminal_only
    [OF cancelled_state_job i', of 103, THEN conjunct1, THEN mp, OF st']
  from t1 have a: "fst (cancel_job 102 ''job-1'' processing_state)"
    and b: "jobs (snd (cancel_job 102 ''job-1'' processing_state)) ''job-1''
       = Some (processing_job\<lparr>status := CANCELLED, completed_at := Some 102\<rparr>)"
    and c: "zscore (processing_queue (snd (cancel_job 102 ''job-1'' processing_state))) ''job-1'' = None"
    by (rule conjunct1, rule conjunct2 [THEN conjunct1],
        rule conjunct2 [THEN conjunct2, THEN conjunct2, THEN conjunct1])
  show ?thesis
    by (intro conjI) (rule processing_state_job i st a b c st' t2)+
qed

text \<open>
  The claim as first stated fails on a PROCESSING job: the job dequeued at 101 is
  cancelled at 102, the call returns true and the stored status becomes CANCELLED.
\<close>

theorem cancel_processing_job_succeeds:
  "map_option status (jobs processing_state ''job-1'') = Some PROCESSING
   \<and> fst (cancel_job 102 ''job-1'' processing_state)
   \<and> map_option status (jobs (snd (cancel_job 102 ''job-1'' processing_state)) ''job-1'')
       = Some CANCELLED
   \<and> map_option completed_at (jobs (snd (cancel_job 102 ''job-1'' processing_state)) ''job-1'')
       = Some (Some 102)"
  by (simp add: processing_state_def toy_defs queue_defs store_defs Let_def)

subsection \<open>Idempotent submission\<close>

lemma derived_keys_equal:
  assumes "job_type A = job_type B"
    and "sort_keys (payload A) = sort_keys (payload B)"
    and "idempotency_key A = generate_idempotency_key dumps sha256_hex (job_type A) (payload A)"
    and "idempotency_key B = generate_idempotency_key dumps sha256_hex (job_type B) (payload B)"
  shows "idempotency_key A = idempotency_key B"
  using assms by (simp add: generate_idempotency_key_def)

lemma enqueue_records_key:
  assumes "jid A \<noteq> []"
  shows "idempotency (snd (enqueue now tz A s)) (idempotency_key A) = Some (fst (enqueue now tz A s))
       \<and> fst (enqueue now tz A s) \<noteq> []"
proof (cases "idempotency s (idempotency_key A)")
  case None
  then show ?thesis
    using assms by (simp add: enqueue_def enqueue_new_fst enqueue_new_idempotency)
next
  case (Some e)
  then show ?thesis
    using assms by (simp add: enqueue_def enqueue_new_fst enqueue_new_idempotency)
qed

lemma enqueue_existing:
  assumes "idempotency s (idempotency_key B) = Some e" and "e \<noteq> []"
  shows "enqueue now tz B s = (e, s)"
  using assms by (simp add: enqueue_def)

text \<open>
  C2. Let A and B have identical \<open>job_type\<close> and payloads that are equal after sorting
  their keys. Their idempotency keys are the derived ones, as \<^verbatim>\<open>__post_init__\<close> sets
  them for a job built without an explicit key, and the id of A is a generated
  identifier, so not the empty string. Then \<open>enqueue B\<close> after \<open>enqueue A\<close> returns the id
  that \<open>enqueue A\<close> returned and leaves the whole store as it was: no record is written
  and no structure changes. Starting from the empty store, exactly one record is held
  afterwards.
\<close>

theorem enqueue_idempotent:
  assumes "job_type A = job_type B"
    and "sort_keys (payload A) = sort_keys (payload B)"
    and "idempotency_key A = generate_idempotency_key dumps sha256_hex (job_type A) (payload A)"
    and "idempotency_key B = generate_idempotency_key dumps sha256_hex (job_type B) (payload B)"
    and "jid A \<noteq> []"
  shows "enqueue t2 tz2 B (snd (enqueue t1 tz1 A s))
           = (fst (enqueue t1 tz1 A s), snd (enqueue t1 tz1 A s))
       \<and> dom (jobs (snd (enqueue t2 tz2 B (snd (enqueue t1 tz1 A empty_state))))) = {jid A}"
proof -
  have k: "idempotency_key A = idempotency_key B"
    using assms(1-4) by (rule derived_keys_equal)
  have again: "enqueue t2 tz2 B (snd (enqueue t1 tz1 A s'))
      = (fst (enqueue t1 tz1 A s'), snd (enqueue t1 tz1 A s'))"
    for s'
    using enqueue_records_key [OF assms(5), of t1 tz1 s']
      enqueue_existing [of "snd (enqueue t1 tz1 A s')" B]
    by (simp add: k)
  have first: "jobs (snd (enqueue t1 tz1 A empty_state)) = Map.empty(jid A \<mapsto> A)"
    by (simp add: enqueue_def enqueue_new_jobs empty_state_def)
  show ?thesis
    using again [of s] again [of empty_state] first by simp
qed

theorem enqueue_idempotent_witness:
  "job_type sync_job_a = job_type sync_job_b
   \<and> sort_keys (payload sync_job_a) = sort_keys (payload sync_job_b)
   \<and> payload sync_job_a \<noteq> payload sync_job_b
   \<and> idempotency_key sync_job_a
       = generate_idempotency_key toy_dumps toy_digest (job_type sync_job_a) (payload sync_job_a)
   \<and> idempotency_key sync_job_b
       = generate_idempotency_key toy_dumps toy_digest (job_type sync_job_b) (payload sync_job_b)
   \<and> jid sync_job_a \<noteq> []
   \<and> fst (enqueue 100 0 sync_job_a empty_state) = ''job-a''
   \<and> enqueue 105 0 sync_job_b (snd (enqueue 100 0 sync_job_a empty_state))
       = (fst (enqueue 100 0 sync_job_a empty_state), snd (enqueue 100 0 sync_job_a empty_state))
   \<and> dom (jobs (snd (enqueue 105 0 sync_job_b (snd (enqueue 100 0 sync_job_a empty_state)))))
       = {jid sync_job_a}"
proof -
  have h1: "job_type sync_job_a = job_type sync_job_b"
    by (simp add: sync_job_a_def sync_job_b_def new_QueueJob_def)
  have h2: "sort_keys (payload sync_job_a) = sort_keys (payload sync_job_b)"
    by (simp add: sync_job_a_def sync_job_b_def new_QueueJob_def sort_keys_def)
  have h3: "idempotency_key sync_job_a
      = generate_idempotency_key toy_dumps toy_digest (job_type sync_job_a) (payload sync_job_a)"
    by (simp add: sync_job_a_def new_QueueJob_def)
  have h4: "idempotency_key sync_job_b
      = generate_idempotency_key toy_dumps toy_digest (job_type sync_job_b) (payload sync_job_b)"
    by (simp add: sync_job_b_def new_QueueJob_def)
  have h5: "jid sync_job_a \<noteq> []"
    by (simp add: sync_job_a_def new_QueueJob_def)
  have d: "payload sync_job_a \<noteq> payload sync_job_b"
    by (simp add: sync_job_a_def sync_job_b_def new_QueueJob_def)
  have f: "fst (enqueue 100 0 sync_job_a empty_state) = ''job-a''"
    by (simp add: enqueue_def enqueue_new_fst empty_state_def sync_job_a_def new_QueueJob_def)
  note t = enqueue_idempotent [OF h1 h2 h3 h4 h5, of 105 0 100 0 empty_state]
  show ?thesis
    by (intro conjI) (rule h1 h2 d h3 h4 h5 f t [THEN conjunct1] t [THEN conjunct2])+
qed

subsection \<open>Terminal states\<close>

lemma delay_60: "calculate_retry_delay (1, 0) 1 60 = Inr 60"
  by (simp add: float_defs bit_length_numeral Let_def)

text \<open>
  C3. The job of \<open>cancelled_state\<close> was cancelled at 102 while a worker was processing
  it. When the worker's handler returns at 103, \<open>process_job\<close> calls \<open>complete_job\<close>,
  which has no guard on the status: the job leaves CANCELLED for COMPLETED and its
  \<open>completed_at\<close> is overwritten. A failure report at 103 moves it to RETRYING.
\<close>

theorem complete_job_leaves_terminal_state:
  "map_option status (jobs cancelled_state ''job-1'') = Some CANCELLED
   \<and> map_option completed_at (jobs cancelled_state ''job-1'') = Some (Some 102)
   \<and> fst (process_job ok_handlers 103 0 (1, 0) processing_job cancelled_state) = Inr True
   \<and> map_option status
        (jobs (snd (process_job ok_handlers 103 0 (1, 0) processing_job cancelled_state)) ''job-1'')
       = Some COMPLETED
   \<and> map_option completed_at
        (jobs (snd (process_job ok_handlers 103 0 (1, 0) processing_job cancelled_state)) ''job-1'')
       = Some (Some 103)
   \<and> fst (fail_job 103 0 (1, 0) ''job-1'' ''boom'' cancelled_state) = Inr ()
   \<and> map_option status (jobs (snd (fail_job 103 0 (1, 0) ''job-1'' ''boom'' cancelled_state)) ''job-1'')
       = Some RETRYING"
  by (simp add: cancelled_state_def processing_state_def processing_job_def ok_handlers_def
      process_job_def run_handler_def payload_get_def delay_60 toy_defs queue_defs store_defs
      Let_def)

subsection \<open>Rate-limit deferral\<close>

lemma is_allowed_rejects_unchanged:
  "\<not> fst (is_allowed now platform user_id kv) \<Longrightarrow> is_allowed now platform user_id kv = (False, kv)"
  by (auto simp: is_allowed_def Let_def split: option.splits prod.splits if_splits)

text \<open>
  C4 (as amended). Let the payload carry a platform and a user id, both with a true truth
  value, and let the limiter reject the call. If the limiter reports a reset time, the
  call returns true and the store changes in two places only: the job is stored as passed
  in (so with its \<open>retry_count\<close>) with status PENDING and \<open>scheduled_at\<close> the reset time
  plus 60 seconds, and its id enters the scheduled structure, scored with the timestamp of
  that datetime; the result does not depend on the handlers and no failure is recorded.
  If the limiter reports no reset time, the call raises inside its \<^verbatim>\<open>try\<close> block and the
  job is failed through \<open>fail_job\<close>: the result is that of the \<^verbatim>\<open>except\<close> branch.
\<close>

theorem rate_limited_job_rescheduled:
  assumes "payload_get (payload job) ''platform'' = Some platform"
    and "payload_get (payload job) ''user_id'' = Some user_id"
    and "truthy platform" and "truthy user_id"
    and "\<not> fst (is_allowed now platform (str_of user_id) (rate_keys s))"
  shows "(\<forall>reset_time.
            get_reset_time now platform (str_of user_id) (rate_keys s) = Some reset_time \<longrightarrow>
            process_job job_handlers now tz jitter job s =
              (Inr True,
               s\<lparr>jobs := (jobs s)(jid job \<mapsto> job\<lparr>scheduled_at := reset_time + 60, status := PENDING\<rparr>),
                 scheduled_queue :=
                   zadd (scheduled_queue s) (jid job) (timestamp tz (reset_time + 60))\<rparr>))
       \<and> (get_reset_time now platform (str_of user_id) (rate_keys s) = None \<longrightarrow>
            process_job job_handlers now tz jitter job s =
              (case fail_job now tz jitter (jid job)
                      (''Rate limit exceeded for '' @ str_of platform @ ''. Resets at None'') s of
                 (Inl err, s') \<Rightarrow> (Inl err, s')
               | (Inr u, s') \<Rightarrow> (Inr False, s')))"
proof -
  have r: "is_allowed now platform (str_of user_id) (rate_keys s) = (False, rate_keys s)"
    using assms(5) by (rule is_allowed_rejects_unchanged)
  have s: "s\<lparr>rate_keys := rate_keys s\<rparr> = s" by simp
  show ?thesis
    using assms(1-4)
    by (simp add: process_job_def r s reschedule_def update_job_def report_failure_def Let_def)
qed

lemma limited_state_payload:
  "payload_get (payload twitter_processing_job) ''platform'' = Some (PStr ''twitter'')"
  "payload_get (payload twitter_processing_job) ''user_id'' = Some (PInt 42)"
  by (simp_all add: twitter_processing_job_def twitter_job_def create_post_job_def
      new_QueueJob_def payload_get_def)

lemma limited_state_keys:
  "rate_keys limited_state = Map.empty(''rate_limit:twitter:42'' \<mapsto> (300, Some 1000))"
  by (simp add: limited_state_def)

lemma limited_state_rejects_950:
  "\<not> fst (is_allowed 950 (PStr ''twitter'') (str_of (PInt 42)) (rate_keys limited_state))"
  by (simp add: limited_state_keys str_nat_42 is_allowed_def limits_def rate_key_def redis_get_def)

lemma limited_state_reset_950:
  "get_reset_time 950 (PStr ''twitter'') (str_of (PInt 42)) (rate_keys limited_state) = Some 1000"
  by (simp add: limited_state_keys str_nat_42 get_reset_time_def limits_def rate_key_def
      redis_ttl_def)

theorem rate_limited_job_rescheduled_witness:
  "payload_get (payload twitter_processing_job) ''platform'' = Some (PStr ''twitter'')
   \<and> payload_get (payload twitter_processing_job) ''user_id'' = Some (PInt 42)
   \<and> truthy (PStr ''twitter'') \<and> truthy (PInt 42)
   \<and> \<not> fst (is_allowed 950 (PStr ''twitter'') (str_of (PInt 42)) (rate_keys limited_state))
   \<and> get_reset_time 950 (PStr ''twitter'') (str_of (PInt 42)) (rate_keys limited_state) = Some 1000
   \<and> process_job Map.empty 950 3600 (1, 0) twitter_processing_job limited_state =
        (Inr True,
         limited_state
           \<lparr>jobs := (jobs limited_state)
              (jid twitter_processing_job \<mapsto>
                 twitter_processing_job\<lparr>scheduled_at := 1000 + 60, status := PENDING\<rparr>),
            scheduled_queue :=
              zadd (scheduled_queue limited_state) (jid twitter_processing_job)
                (timestamp 3600 (1000 + 60))\<rparr>)"
proof -
  have t: "truthy (PStr ''twitter'')" "truthy (PInt 42)" by simp_all
  note inst = rate_limited_job_rescheduled
    [OF limited_state_payload t limited_state_rejects_950, of Map.empty 3600 "(1, 0)"]
  show ?thesis
    by (intro conjI)
       (rule limited_state_payload t limited_state_rejects_950 limited_state_reset_950
          inst [THEN conjunct1, THEN spec, THEN mp, OF limited_state_reset_950])+
qed

text \<open>
  The claim as first stated fails when the limiter rejects the call and has no reset time
  to report: at 999.8 the counter is still at its ceiling, its remaining life of 0.2 s
  rounds to a time-to-live of 0, and \<open>process_job\<close> fails the job, which consumes a retry.
\<close>

theorem rate_limited_without_reset_time_fails:
  "\<not> fst (is_allowed (9998 / 10) (PStr ''twitter'') (str_of (PInt 42)) (rate_keys limited_state))
   \<and> get_reset_time (9998 / 10) (PStr ''twitter'') (str_of (PInt 42)) (rate_keys limited_state) = None
   \<and> fst (process_job ok_handlers (9998 / 10) 0 (1, 0) twitter_processing_job limited_state)
       = Inr False
   \<and> retry_count twitter_processing_job = 0
   \<and> map_option retry_count
        (jobs (snd (process_job ok_handlers (9998 / 10) 0 (1, 0) twitter_processing_job limited_state))
           ''job-7'') = Some 1
   \<and> map_option status
        (jobs (snd (process_job ok_handlers (9998 / 10) 0 (1, 0) twitter_processing_job limited_state))
           ''job-7'') = Some RETRYING
   \<and> zscore (scheduled_queue
        (snd (process_job ok_handlers (9998 / 10) 0 (1, 0) twitter_processing_job limited_state)))
           ''job-7'' = None"
  by (simp add: limited_state_def twitter_processing_job_def twitter_job_def create_post_job_def
      generate_idempotency_key_def sort_keys_def str_nat_42 is_allowed_def get_reset_time_def
      limits_def rate_key_def redis_get_def redis_ttl_def process_job_def payload_get_def
      report_failure_def delay_60 toy_defs queue_defs store_defs Let_def)

subsection \<open>Cleanup\<close>



























subsection \<open>Priority order\<close>

text \<open>
  C6. The pending score is \<open>priority \<times> 1000 + seconds\<close>, so a tier is worth 1000
  seconds: a LOW job enqueued 3001 seconds after an URGENT job has the higher score, and
  \<open>dequeue\<close> returns it while the URGENT job is still pending.
\<close>

theorem dequeue_returns_low_before_urgent:
  "zscore (pending_queue urgent_then_low_state) ''job-urgent'' = Some 1700004000
   \<and> zscore (pending_queue urgent_then_low_state) ''job-low'' = Some 1700004001
   \<and> map_option jid (fst (dequeue 1700003002 urgent_then_low_state)) = Some ''job-low''
   \<and> map_option priority (fst (dequeue 1700003002 urgent_then_low_state)) = Some LOW
   \<and> zscore (pending_queue (snd (dequeue 1700003002 urgent_then_low_state))) ''job-urgent''
       = Some 1700004000"
  by (simp add: urgent_then_low_state_def toy_defs queue_defs store_defs Let_def)

subsection \<open>Retry budget\<close>

text \<open>
  Two parts of the claim hold in every run: \<open>fail_job\<close> is the only writer of RETRYING
  and writes it under \<open>retry_count \<le> max_retries\<close>, and a failure report that takes
  \<open>retry_count\<close> above \<open>max_retries\<close> stores the job as FAILED and puts it into the failed
  structure.
\<close>

lemma retry_bounded_store:
  assumes "retry_bounded s" and "jobs s' = (jobs s)(k \<mapsto> j)"
    and "status j = RETRYING \<longrightarrow> retry_count j \<le> max_retries j"
  shows "retry_bounded s'"
  using assms by (auto simp: retry_bounded_def)

lemma retry_bounded_empty: "retry_bounded empty_state"
  by (simp add: retry_bounded_def empty_state_def)

lemma retry_bounded_enqueue:
  assumes "retry_bounded s" and "status job \<in> {PENDING, QUEUED}"
  shows "retry_bounded (snd (enqueue now tz job s))"
proof -
  have n: "retry_bounded (snd (enqueue_new now tz job s))"
    using assms by (intro retry_bounded_store [OF assms(1) enqueue_new_jobs]) auto
  show ?thesis
    using assms(1) n by (simp add: enqueue_def split: option.splits)
qed

lemma retry_bounded_promote_retry: "retry_bounded s \<Longrightarrow> retry_bounded (promote_retry now k s)"
  by (auto simp: promote_retry_def update_job_def get_job_def retry_bounded_def Let_def
      split: option.splits)

lemma retry_bounded_fold_promote_retry:
  "retry_bounded s \<Longrightarrow> retry_bounded (fold (promote_retry now) ids s)"
  by (induction ids arbitrary: s) (simp_all add: retry_bounded_promote_retry)

lemma retry_bounded_move: "retry_bounded s \<Longrightarrow> retry_bounded (move_scheduled_jobs now s)"
proof -
  assume b: "retry_bounded s"
  have "retry_bounded (fold (promote_scheduled now) ids s)" for ids
    using b by (simp add: retry_bounded_def fold_promote_scheduled_jobs)
  then show ?thesis
    by (simp add: move_scheduled_jobs_def Let_def retry_bounded_fold_promote_retry)
qed

lemma retry_bounded_dequeue:
  assumes "retry_bounded s"
  shows "retry_bounded (snd (dequeue now s))"
proof -
  have m: "retry_bounded (move_scheduled_jobs now s)"
    using assms by (rule retry_bounded_move)
  show ?thesis
  proof (cases "zpopmax (pending_queue (move_scheduled_jobs now s))")
    case None
    then show ?thesis using m by (simp add: dequeue_def Let_def)
  next
    case (Some a)
    obtain e rest where a: "a = (e, rest)" by (cases a)
    show ?thesis
      using m unfolding dequeue_cases [OF Some [unfolded a]]
      by (auto simp: retry_bounded_def split: option.splits)
  qed
qed

lemma retry_bounded_complete_job: "retry_bounded s \<Longrightarrow> retry_bounded (complete_job now k res s)"
  by (auto simp: complete_job_def update_job_def get_job_def retry_bounded_def Let_def
      split: option.splits)

lemma retry_bounded_fail_job:
  "retry_bounded s \<Longrightarrow> retry_bounded (snd (fail_job now tz jitter k msg s))"
  by (auto simp: fail_job_def update_job_def get_job_def retry_bounded_def Let_def
      split: option.splits sum.splits)

lemma retry_bounded_cancel_job: "retry_bounded s \<Longrightarrow> retry_bounded (snd (cancel_job now k s))"
  by (auto simp: cancel_job_def update_job_def get_job_def retry_bounded_def Let_def
      split: option.splits)

lemma retry_bounded_cleanup: "retry_bounded s \<Longrightarrow> retry_bounded (cleanup_old_jobs now days s)"
  unfolding cleanup_old_jobs_eq by (auto simp: retry_bounded_def hdel_all_apply split: if_splits)

lemma retry_bounded_run_handler:
  "retry_bounded s \<Longrightarrow> retry_bounded (snd (run_handler job_handlers now tz jitter job s))"
  by (simp add: run_handler_def snd_report_failure retry_bounded_fail_job
      retry_bounded_complete_job split: option.splits sum.splits)

lemma retry_bounded_reschedule: "retry_bounded s \<Longrightarrow> retry_bounded (reschedule tz t job s)"
  by (auto simp: reschedule_def update_job_def retry_bounded_def Let_def)

lemma retry_bounded_process_job:
  assumes "retry_bounded s"
  shows "retry_bounded (snd (process_job job_handlers now tz jitter job s))"
proof -
  have k: "retry_bounded (s\<lparr>rate_keys := kv\<rparr>)" for kv
    using assms by (simp add: retry_bounded_def)
  show ?thesis
    using assms k
    by (simp add: process_job_def Let_def retry_bounded_run_handler retry_bounded_reschedule
        snd_report_failure retry_bounded_fail_job split: option.splits prod.splits)
qed

lemma retry_bounded_worker_iteration:
  assumes "retry_bounded s"
  shows "retry_bounded (worker_iteration job_handlers now tz jitter s)"
proof (cases "dequeue now s")
  case (Pair r s')
  have d: "retry_bounded s'"
    using retry_bounded_dequeue [OF assms, of now] Pair by simp
  show ?thesis
    using d retry_bounded_process_job [OF d]
    by (cases r) (simp_all add: worker_iteration_def Pair)
qed

lemma retry_bounded_apply_operation:
  "retry_bounded s \<Longrightarrow> submits_new_job op \<Longrightarrow> retry_bounded (apply_operation op s)"
  by (cases op)
     (simp_all add: retry_bounded_enqueue retry_bounded_dequeue retry_bounded_complete_job
        retry_bounded_fail_job retry_bounded_cancel_job retry_bounded_process_job
        retry_bounded_cleanup retry_bounded_worker_iteration)

lemma retry_bounded_run:
  "\<forall>op \<in> set ops. submits_new_job op \<Longrightarrow> retry_bounded s \<Longrightarrow> retry_bounded (run ops s)"
  by (induction ops arbitrary: s)
     (simp_all add: run_Nil run_Cons retry_bounded_apply_operation)

lemma retrying_within_budget:
  assumes "\<forall>op \<in> set ops. submits_new_job op"
    and "jobs (run ops empty_state) k = Some j" and "status j = RETRYING"
  shows "retry_count j \<le> max_retries j"
  using retry_bounded_run [OF assms(1) retry_bounded_empty] assms(2,3)
  unfolding retry_bounded_def by blast

lemma fail_job_exhausted:
  assumes "jobs s job_id = Some job" and "jid job = job_id"
    and "max_retries job < retry_count job + 1"
  shows "fail_job now tz jitter job_id msg s =
     (Inr (),
      s\<lparr>processing_queue := zrem (processing_queue s) job_id,
        jobs := (jobs s)(job_id \<mapsto>
           job\<lparr>error_message := Some msg, retry_count := retry_count job + 1,
               status := FAILED, completed_at := Some now\<rparr>),
        failed_queue := zadd (failed_queue s) job_id (of_int (py_int now))\<rparr>)"
  using assms by (simp add: fail_job_def get_job_def update_job_def Let_def)

text \<open>
  The third part fails where the delay computation raises. A failure report within the
  budget that meets an \<^verbatim>\<open>OverflowError\<close> leaves \<open>fail_job\<close> with the id taken out of the
  processing structure and nothing else written.
\<close>

lemma fail_job_raises:
  assumes "jobs s job_id = Some job" and "retry_count job + 1 \<le> max_retries job"
    and "calculate_retry_delay jitter (retry_count job + 1) (retry_delay job) = Inl err"
  shows "fail_job now tz jitter job_id msg s
           = (Inl err, s\<lparr>processing_queue := zrem (processing_queue s) job_id\<rparr>)"
  using assms by (simp add: fail_job_def get_job_def Let_def)

lemma default_delay_overflows:
  assumes "1020 \<le> rc"
  shows "calculate_retry_delay jitter rc 60 = Inl OverflowError"
proof -
  have "(2::int) ^ 1019 \<le> 2 ^ nat (rc - 1)"
    using assms by (intro power_increasing) simp_all
  then have "60 * (2::int) ^ 1019 \<le> 60 * 2 ^ nat (rc - 1)" by simp
  moreover have "(2::int) ^ 1024 \<le> 60 * 2 ^ 1019" by simp
  ultimately have "(2::int) ^ 1024 \<le> 60 * 2 ^ nat (rc - 1)" by (rule order_trans [rotated])
  then show ?thesis
    using assms by (intro calculate_retry_delay_overflow) simp_all
qed








subsection \<open>Retry delay\<close>

text \<open>
  The statement below bounds the product of the integers by \<open>2^1023\<close>, which keeps the
  two float operations clear of the overflow: from \<open>2^1024\<close> on the function raises
  (\<open>calculate_retry_delay_overflow\<close>), and what it does there is no part of the statement.
\<close>

text \<open>
  C8 (as amended). Let \<open>retry_count \<ge> 1\<close> and \<open>base_delay \<ge> 0\<close> with
  \<open>base_delay \<times> 2^(retry_count - 1) < 2^1023\<close>, and let the jitter be a float in
  [0.75, 1.25]. Then the function returns, and its result is \<open>min \<lfloor>p\<rfloor> 3600\<close> for a
  number \<open>p\<close>, the rounded product, which differs from \<open>base_delay \<times> 2^(retry_count - 1) \<times> jitter\<close>
  by at most that number divided by \<open>2^51\<close>: the product is cut to whole seconds before
  the cap. The result lies between 0 and 3600; below the cap it is at most 1.25 times
  \<open>base_delay \<times> 2^(retry_count - 1)\<close> and at least 0.75 times that number minus one
  second.
\<close>

theorem retry_delay_bounds:
  assumes "1 \<le> rc" and "0 \<le> base_delay"
    and "base_delay * 2 ^ nat (rc - 1) < 2 ^ 1023"
    and "drawn_jitter jitter"
  shows "\<exists>D p. calculate_retry_delay jitter rc base_delay = Inr D
           \<and> D = min \<lfloor>p\<rfloor> 3600
           \<and> \<bar>p - real_of_int (base_delay * 2 ^ nat (rc - 1)) * valof jitter\<bar>
                \<le> real_of_int (base_delay * 2 ^ nat (rc - 1)) * valof jitter / 2 ^ 51
           \<and> 0 \<le> D \<and> D \<le> 3600
           \<and> (D < 3600 \<longrightarrow>
                 3 / 4 * real_of_int (base_delay * 2 ^ nat (rc - 1)) - 1 \<le> real_of_int D
               \<and> real_of_int D \<le> 5 / 4 * real_of_int (base_delay * 2 ^ nat (rc - 1)))"
proof -
  define d where "d = base_delay * 2 ^ nat (rc - 1)"
  have d0: "0 \<le> d" using assms(2) by (simp add: d_def)
  have dlt: "d < 2 ^ 1023" using assms(3) by (simp only: d_def)
  obtain x1 x2 where x1: "round64 d 0 = Some x1" and x2: "float_mul x1 jitter = Some x2"
    and f2: "0 \<le> fst x2"
    and lo: "real_of_int d * (3 / 4) * (1 - 1 / 2 ^ 52) \<le> valof x2"
    and hi: "valof x2 \<le> real_of_int d * (5 / 4) * (1 + 1 / 2 ^ 51)"
    and near: "\<bar>valof x2 - real_of_int d * valof jitter\<bar> \<le> real_of_int d * valof jitter / 2 ^ 51"
    using rounded_product [OF d0 dlt assms(4)] by blast
  define v where "v = valof x2"
  define D where "D = min \<lfloor>v\<rfloor> 3600"
  have res: "calculate_retry_delay jitter rc base_delay = Inr D"
    using assms(1) x1 x2 int_of_float_floor [OF f2]
    by (simp add: calculate_retry_delay_def float_of_int_def capped_def d_def D_def v_def)
  have vnn: "0 \<le> v" unfolding v_def using f2 by (rule valof_nonneg)
  have D0: "0 \<le> D" using vnn by (simp add: D_def)
  have D1: "D \<le> 3600" by (simp add: D_def)
  have band: "3 / 4 * real_of_int d - 1 \<le> real_of_int D \<and> real_of_int D \<le> 5 / 4 * real_of_int d"
    if below: "D < 3600"
  proof -
    have Dv: "D = \<lfloor>v\<rfloor>" using below by (simp add: D_def min_def split: if_splits)
    have "real_of_int \<lfloor>v\<rfloor> < 3600" using below Dv by simp
    then have v36: "v < 3601" by linarith
    have lo': "real_of_int d * (3 / 4) * (1 - 1 / 2 ^ 52) \<le> v" using lo by (simp only: v_def)
    have hi': "v \<le> real_of_int d * (5 / 4) * (1 + 1 / 2 ^ 51)" using hi by (simp only: v_def)
    have dr: "0 \<le> real_of_int d" using d0 by simp
    define fv where "fv = real_of_int \<lfloor>v\<rfloor>"
    have fl: "fv \<le> v" unfolding fv_def by (rule of_int_floor_le)
    have fu: "v - 1 < fv" unfolding fv_def by linarith
    have dsmall: "real_of_int d < 4802" using lo' v36 by simp
    have "4 * fv < 5 * real_of_int d + 1"
      using fl hi' dsmall dr by simp
    then have "real_of_int (4 * \<lfloor>v\<rfloor>) < real_of_int (5 * d + 1)" by (simp add: fv_def)
    then have "4 * \<lfloor>v\<rfloor> < 5 * d + 1" by (simp only: of_int_less_iff)
    then have "4 * \<lfloor>v\<rfloor> \<le> 5 * d" by simp
    then have "real_of_int (4 * \<lfloor>v\<rfloor>) \<le> real_of_int (5 * d)" by (simp only: of_int_le_iff)
    then have up: "real_of_int \<lfloor>v\<rfloor> \<le> 5 / 4 * real_of_int d" by simp
    have "3 * real_of_int d - 5 < 4 * fv"
      using fu lo' dsmall dr by simp
    then have "real_of_int (3 * d - 5) < real_of_int (4 * \<lfloor>v\<rfloor>)" by (simp add: fv_def)
    then have "3 * d - 5 < 4 * \<lfloor>v\<rfloor>" by (simp only: of_int_less_iff)
    then have "3 * d - 4 \<le> 4 * \<lfloor>v\<rfloor>" by simp
    then have "real_of_int (3 * d - 4) \<le> real_of_int (4 * \<lfloor>v\<rfloor>)" by (simp only: of_int_le_iff)
    then have down: "3 / 4 * real_of_int d - 1 \<le> real_of_int \<lfloor>v\<rfloor>" by simp
    show ?thesis using up down Dv by simp
  qed
  have "D = min \<lfloor>v\<rfloor> 3600" by (rule D_def)
  moreover have "\<bar>v - real_of_int d * valof jitter\<bar> \<le> real_of_int d * valof jitter / 2 ^ 51"
    using near by (simp only: v_def)
  ultimately show ?thesis
    using res D0 D1 band unfolding d_def by blast
qed

lemma jitter_six_fifths: "drawn_jitter (5404319552844595, - 52)"
  by (simp add: drawn_jitter_def valof_def pow2_def)

lemma delay_72: "calculate_retry_delay (5404319552844595, - 52) 1 60 = Inr 72"
  by (simp add: float_defs bit_length_numeral Let_def)

theorem retry_delay_bounds_witness:
  "(1::int) \<le> 1 \<and> (0::int) \<le> 60 \<and> (60::int) * 2 ^ nat (1 - 1) < 2 ^ 1023
   \<and> drawn_jitter (5404319552844595, - 52)
   \<and> calculate_retry_delay (5404319552844595, - 52) 1 60 = Inr 72
   \<and> (72::int) < 3600
   \<and> 3 / 4 * real_of_int (60 * 2 ^ nat (1 - 1)) - 1 \<le> real_of_int 72
   \<and> real_of_int 72 \<le> 5 / 4 * real_of_int (60 * 2 ^ nat (1 - 1))"
proof -
  have h: "(1::int) \<le> 1" "(0::int) \<le> 60" "(60::int) * 2 ^ nat (1 - 1) < 2 ^ 1023"
    by simp_all
  note t = retry_delay_bounds [OF h jitter_six_fifths]
  obtain D where r: "calculate_retry_delay (5404319552844595, - 52) 1 60 = Inr D"
    and b: "D < 3600 \<longrightarrow>
              3 / 4 * real_of_int (60 * 2 ^ nat (1 - 1)) - 1 \<le> real_of_int D
            \<and> real_of_int D \<le> 5 / 4 * real_of_int (60 * 2 ^ nat (1 - 1))"
    using t by (elim exE conjE)
  have D: "D = 72" using r delay_72 by simp
  have c: "(72::int) < 3600" by simp
  note band = b [unfolded D, THEN mp, OF c]
  show ?thesis
    by (intro conjI) (rule h jitter_six_fifths delay_72 c band [THEN conjunct1] band [THEN conjunct2])+
qed

text \<open>
  The claim as first stated fails through the truncation: with \<open>base_delay = 1\<close>,
  \<open>retry_count = 1\<close> and the jitter 0.75, the float \<open>(3, -2)\<close>, the delay is 0, below 0.75
  times the base delay.
\<close>

theorem retry_delay_truncated_below_band:
  "drawn_jitter (3, - 2)
   \<and> calculate_retry_delay (3, - 2) 1 1 = Inr 0
   \<and> real_of_int 0 < 3 / 4 * (real_of_int 1 * 2 ^ nat (1 - 1))"
  by (simp add: drawn_jitter_def valof_def pow2_def float_defs bit_length_numeral Let_def)

subsection \<open>Order within a priority tier\<close>

text \<open>
  C9 (as amended). The pending score is \<open>priority \<times> 1000\<close> plus the whole second of the
  insertion: \<open>enqueue\<close> of a job that is due and whose key is new gives it the score of
  the time of the call, and \<open>move_scheduled_jobs\<close> gives every due entry of the scheduled
  and of the retry structure that has a record the score of the time of the promotion and
  takes it out of that structure. Within a tier the score never decreases with the
  insertion time. Let J1 and J2 have equal priority and be in the pending structure with
  the scores of the insertion times \<open>t1\<close> and \<open>t2\<close>, J2 with its record, neither of them
  waiting in the scheduled or the retry structure. If \<open>t1\<close> lies in an earlier whole second
  than \<open>t2\<close>, or in the same second while J1 has the smaller id, a \<open>dequeue\<close> does not
  return J1 and leaves it in the pending structure, and J2 is either the job returned or
  still pending with its score: J2 is taken before J1.
\<close>

theorem tier_order_by_second_then_id:
  assumes "priority J1 = priority J2"
    and "distinct (map fst (pending_queue s))"
    and "keyed_by_id s"
    and "jobs s (jid J2) = Some J2"
    and "zscore (pending_queue s) (jid J1) = Some (pending_score t1 J1)"
    and "zscore (pending_queue s) (jid J2) = Some (pending_score t2 J2)"
    and "zscore (scheduled_queue s) (jid J1) = None"
    and "zscore (retry_queue s) (jid J1) = None"
    and "zscore (scheduled_queue s) (jid J2) = None"
    and "zscore (retry_queue s) (jid J2) = None"
  shows "(t1 \<le> t2 \<longrightarrow> pending_score t1 J1 \<le> pending_score t2 J2)
       \<and> (py_int t1 < py_int t2 \<or> (py_int t1 = py_int t2 \<and> jid J1 < jid J2) \<longrightarrow>
            zscore (pending_queue (snd (dequeue now s))) (jid J1) = Some (pending_score t1 J1)
          \<and> (\<forall>job. fst (dequeue now s) = Some job \<longrightarrow> jid job \<noteq> jid J1)
          \<and> (map_option jid (fst (dequeue now s)) = Some (jid J2)
             \<or> zscore (pending_queue (snd (dequeue now s))) (jid J2)
                 = Some (pending_score t2 J2)))
       \<and> (idempotency s0 (idempotency_key J) = None \<and> scheduled_at J \<le> t
            \<longrightarrow> zscore (pending_queue (snd (enqueue t tz J s0))) (jid J)
                  = Some (pending_score t J))
       \<and> (keyed_by_id s0 \<and> jobs s0 k = Some J
            \<and> zscore (scheduled_queue s0) k = Some sc \<and> 0 \<le> sc \<and> sc \<le> t
            \<longrightarrow> zscore (pending_queue (move_scheduled_jobs t s0)) k = Some (pending_score t J)
              \<and> zscore (scheduled_queue (move_scheduled_jobs t s0)) k = None)
       \<and> (keyed_by_id s0 \<and> jobs s0 k = Some J
            \<and> zscore (retry_queue s0) k = Some sc \<and> 0 \<le> sc \<and> sc \<le> t
            \<longrightarrow> zscore (pending_queue (move_scheduled_jobs t s0)) k = Some (pending_score t J)
              \<and> zscore (retry_queue (move_scheduled_jobs t s0)) k = None)"
proof (intro conjI impI)
  assume "t1 \<le> t2"
  then show "pending_score t1 J1 \<le> pending_score t2 J2"
    using py_int_mono [of t1 t2] by (simp add: pending_score_def assms(1))
next
  assume o: "py_int t1 < py_int t2 \<or> (py_int t1 = py_int t2 \<and> jid J1 < jid J2)"
  then have lt: "pending_score t1 J1 < pending_score t2 J2
      \<or> (pending_score t1 J1 = pending_score t2 J2 \<and> jid J1 < jid J2)"
    by (auto simp: pending_score_def assms(1))
  note d = dequeue_not_lower [OF assms(2,3,4,5,6,7,8,9,10) lt, of now]
  show "zscore (pending_queue (snd (dequeue now s))) (jid J1) = Some (pending_score t1 J1)"
    using d by (rule conjunct1)
  show "\<forall>job. fst (dequeue now s) = Some job \<longrightarrow> jid job \<noteq> jid J1"
    using d by (rule conjunct2 [THEN conjunct1])
  show "map_option jid (fst (dequeue now s)) = Some (jid J2)
      \<or> zscore (pending_queue (snd (dequeue now s))) (jid J2) = Some (pending_score t2 J2)"
    using d by (rule conjunct2 [THEN conjunct2])
next
  assume "idempotency s0 (idempotency_key J) = None \<and> scheduled_at J \<le> t"
  then show "zscore (pending_queue (snd (enqueue t tz J s0))) (jid J) = Some (pending_score t J)"
    using enqueue_pending_score [of s0 J t tz] by simp
next
  assume a: "keyed_by_id s0 \<and> jobs s0 k = Some J
      \<and> zscore (scheduled_queue s0) k = Some sc \<and> 0 \<le> sc \<and> sc \<le> t"
  then have p: "zscore (pending_queue (move_scheduled_jobs t s0)) k = Some (pending_score t J)
      \<and> zscore (scheduled_queue (move_scheduled_jobs t s0)) k = None"
    using move_scheduled_jobs_promotes_scheduled [of s0 k J sc t] by simp
  show "zscore (pending_queue (move_scheduled_jobs t s0)) k = Some (pending_score t J)"
    using p by (rule conjunct1)
  show "zscore (scheduled_queue (move_scheduled_jobs t s0)) k = None"
    using p by (rule conjunct2)
next
  assume a: "keyed_by_id s0 \<and> jobs s0 k = Some J
      \<and> zscore (retry_queue s0) k = Some sc \<and> 0 \<le> sc \<and> sc \<le> t"
  then have p: "zscore (pending_queue (move_scheduled_jobs t s0)) k = Some (pending_score t J)
      \<and> zscore (retry_queue (move_scheduled_jobs t s0)) k = None"
    using move_scheduled_jobs_promotes_retry [of s0 k J sc t] by simp
  show "zscore (pending_queue (move_scheduled_jobs t s0)) k = Some (pending_score t J)"
    using p by (rule conjunct1)
  show "zscore (retry_queue (move_scheduled_jobs t s0)) k = None"
    using p by (rule conjunct2)
qed

lemma one_normal_state_eq:
  "one_normal_state =
     empty_state\<lparr>jobs := Map.empty(''job-1'' \<mapsto> first_normal_job),
                 idempotency := Map.empty(''key-1'' \<mapsto> ''job-1''),
                 pending_queue := [(''job-1'', 2100)]\<rparr>"
  by (simp add: one_normal_state_def first_normal_job_def toy_defs queue_defs store_defs Let_def)

lemma two_normal_state_eq:
  "two_normal_state =
     empty_state\<lparr>jobs := Map.empty(''job-1'' \<mapsto> first_normal_job, ''job-2'' \<mapsto> second_normal_job),
                 idempotency := Map.empty(''key-1'' \<mapsto> ''job-1'', ''key-2'' \<mapsto> ''job-2''),
                 pending_queue := [(''job-2'', 2101), (''job-1'', 2100)]\<rparr>"
  by (simp add: two_normal_state_def one_normal_state_eq first_normal_job_def
      second_normal_job_def toy_defs queue_defs store_defs Let_def)

lemma two_normal_state_dequeue:
  "fst (dequeue 102 two_normal_state)
     = Some (second_normal_job\<lparr>status := PROCESSING, started_at := Some 102\<rparr>)"
  unfolding two_normal_state_eq
  by (simp add: first_normal_job_def second_normal_job_def toy_defs queue_defs store_defs Let_def)

lemma same_second_state_eq:
  "same_second_state =
     empty_state\<lparr>jobs := Map.empty(''job-b'' \<mapsto> job_b, ''job-a'' \<mapsto> job_a),
                 idempotency := Map.empty(''key-b'' \<mapsto> ''job-b'', ''key-a'' \<mapsto> ''job-a''),
                 pending_queue := [(''job-a'', 2100), (''job-b'', 2100)]\<rparr>"
  by (simp add: same_second_state_def job_a_def job_b_def toy_defs queue_defs store_defs Let_def)

lemma same_second_state_dequeue:
  "fst (dequeue 101 same_second_state) = Some (job_b\<lparr>status := PROCESSING, started_at := Some 101\<rparr>)"
  unfolding same_second_state_eq
  by (simp add: job_a_def job_b_def toy_defs queue_defs store_defs Let_def)

lemma deferred_state_eq:
  "deferred_state =
     empty_state\<lparr>jobs := Map.empty(''job-3'' \<mapsto> deferred_job),
                 idempotency := Map.empty(''key-3'' \<mapsto> ''job-3''),
                 scheduled_queue := [(''job-3'', 200)]\<rparr>"
  by (simp add: deferred_state_def deferred_job_def toy_defs queue_defs store_defs Let_def)

lemma retrying_state_eq:
  "retrying_state =
     empty_state\<lparr>jobs := Map.empty(''job-1'' \<mapsto> retrying_job),
                 idempotency := Map.empty(''key-1'' \<mapsto> ''job-1''),
                 retry_queue := [(''job-1'', 162)]\<rparr>"
  unfolding retrying_state_def one_normal_state_eq
  by (simp add: retrying_job_def first_normal_job_def delay_60 toy_defs queue_defs store_defs
      Let_def)

theorem tier_order_by_second_then_id_witness:
  "priority first_normal_job = priority second_normal_job
   \<and> jobs two_normal_state (jid second_normal_job) = Some second_normal_job
   \<and> zscore (pending_queue two_normal_state) (jid first_normal_job)
       = Some (pending_score 100 first_normal_job)
   \<and> zscore (pending_queue two_normal_state) (jid second_normal_job)
       = Some (pending_score 101 second_normal_job)
   \<and> py_int 100 < py_int 101
   \<and> pending_score 100 first_normal_job \<le> pending_score 101 second_normal_job
   \<and> zscore (pending_queue (snd (dequeue 102 two_normal_state))) (jid first_normal_job)
       = Some (pending_score 100 first_normal_job)
   \<and> fst (dequeue 102 two_normal_state)
       = Some (second_normal_job\<lparr>status := PROCESSING, started_at := Some 102\<rparr>)
   \<and> jid (second_normal_job\<lparr>status := PROCESSING, started_at := Some 102\<rparr>)
       \<noteq> jid first_normal_job
   \<and> priority job_a = priority job_b
   \<and> zscore (pending_queue same_second_state) (jid job_a) = Some (pending_score (1007 / 10) job_a)
   \<and> zscore (pending_queue same_second_state) (jid job_b) = Some (pending_score (1002 / 10) job_b)
   \<and> py_int (1007 / 10) = py_int (1002 / 10) \<and> jid job_a < jid job_b
   \<and> zscore (pending_queue (snd (dequeue 101 same_second_state))) (jid job_a)
       = Some (pending_score (1007 / 10) job_a)
   \<and> fst (dequeue 101 same_second_state)
       = Some (job_b\<lparr>status := PROCESSING, started_at := Some 101\<rparr>)
   \<and> jid (job_b\<lparr>status := PROCESSING, started_at := Some 101\<rparr>) \<noteq> jid job_a
   \<and> idempotency one_normal_state (idempotency_key second_normal_job) = None
   \<and> scheduled_at second_normal_job \<le> 101
   \<and> zscore (pending_queue (snd (enqueue 101 0 second_normal_job one_normal_state)))
        (jid second_normal_job) = Some (pending_score 101 second_normal_job)
   \<and> jobs deferred_state ''job-3'' = Some deferred_job
   \<and> zscore (scheduled_queue deferred_state) ''job-3'' = Some 200
   \<and> zscore (pending_queue (move_scheduled_jobs 250 deferred_state)) ''job-3''
       = Some (pending_score 250 deferred_job)
   \<and> zscore (scheduled_queue (move_scheduled_jobs 250 deferred_state)) ''job-3'' = None
   \<and> jobs retrying_state ''job-1'' = Some retrying_job
   \<and> zscore (retry_queue retrying_state) ''job-1'' = Some 162
   \<and> zscore (pending_queue (move_scheduled_jobs 170 retrying_state)) ''job-1''
       = Some (pending_score 170 retrying_job)
   \<and> zscore (retry_queue (move_scheduled_jobs 170 retrying_state)) ''job-1'' = None"
proof -
  have i: "jid first_normal_job = ''job-1''" "jid second_normal_job = ''job-2''"
    "jid job_a = ''job-a''" "jid job_b = ''job-b''"
    by (simp_all add: first_normal_job_def second_normal_job_def job_a_def job_b_def toy_defs)
  have h1: "priority first_normal_job = priority second_normal_job"
    by (simp add: first_normal_job_def second_normal_job_def toy_defs)
  have h2: "distinct (map fst (pending_queue two_normal_state))"
    by (simp add: two_normal_state_eq)
  have h3: "keyed_by_id two_normal_state"
    unfolding two_normal_state_def one_normal_state_def
    by (intro keyed_by_id_enqueue keyed_by_id_empty)
  have h4: "jobs two_normal_state (jid second_normal_job) = Some second_normal_job"
    by (simp add: two_normal_state_eq i)
  have h5: "zscore (pending_queue two_normal_state) (jid first_normal_job)
       = Some (pending_score 100 first_normal_job)"
    by (simp add: two_normal_state_eq first_normal_job_def toy_defs zscore_def
        pending_score_def py_int_def)
  have h6: "zscore (pending_queue two_normal_state) (jid second_normal_job)
       = Some (pending_score 101 second_normal_job)"
    by (simp add: two_normal_state_eq second_normal_job_def toy_defs zscore_def
        pending_score_def py_int_def)
  have h7: "zscore (scheduled_queue two_normal_state) (jid first_normal_job) = None"
    "zscore (retry_queue two_normal_state) (jid first_normal_job) = None"
    "zscore (scheduled_queue two_normal_state) (jid second_normal_job) = None"
    "zscore (retry_queue two_normal_state) (jid second_normal_job) = None"
    by (simp_all add: two_normal_state_eq empty_state_def zscore_def)
  have lt: "py_int 100 < py_int 101" by (simp add: py_int_def)
  have le: "(100::real) \<le> 101" by simp
  note inst = tier_order_by_second_then_id [OF h1 h2 h3 h4 h5 h6 h7]
  note a = inst [THEN conjunct1, THEN mp, OF le]
  note b = inst [THEN conjunct2, THEN conjunct1, THEN mp, OF disjI1 [OF lt], of 102]
  note c = b [THEN conjunct2, THEN conjunct1, THEN spec, THEN mp, OF two_normal_state_dequeue]
  have g1: "priority job_a = priority job_b"
    by (simp add: job_a_def job_b_def toy_defs)
  have g2: "distinct (map fst (pending_queue same_second_state))"
    by (simp add: same_second_state_eq)
  have g3: "keyed_by_id same_second_state"
    unfolding same_second_state_def by (intro keyed_by_id_enqueue keyed_by_id_empty)
  have g4: "jobs same_second_state (jid job_b) = Some job_b"
    by (simp add: same_second_state_eq i)
  have g5: "zscore (pending_queue same_second_state) (jid job_a)
       = Some (pending_score (1007 / 10) job_a)"
    by (simp add: same_second_state_eq job_a_def toy_defs zscore_def pending_score_def py_int_def)
  have g6: "zscore (pending_queue same_second_state) (jid job_b)
       = Some (pending_score (1002 / 10) job_b)"
    by (simp add: same_second_state_eq job_b_def toy_defs zscore_def pending_score_def py_int_def)
  have g7: "zscore (scheduled_queue same_second_state) (jid job_a) = None"
    "zscore (retry_queue same_second_state) (jid job_a) = None"
    "zscore (scheduled_queue same_second_state) (jid job_b) = None"
    "zscore (retry_queue same_second_state) (jid job_b) = None"
    by (simp_all add: same_second_state_eq empty_state_def zscore_def)
  have tie: "py_int (1007 / 10) = py_int (1002 / 10)" by (simp add: py_int_def)
  have ids: "jid job_a < jid job_b" by (simp add: i)
  note inst' = tier_order_by_second_then_id [OF g1 g2 g3 g4 g5 g6 g7]
  note b' = inst' [THEN conjunct2, THEN conjunct1, THEN mp, OF disjI2 [OF conjI [OF tie ids]],
      of 101]
  note c' = b' [THEN conjunct2, THEN conjunct1, THEN spec, THEN mp, OF same_second_state_dequeue]
  have e1: "idempotency one_normal_state (idempotency_key second_normal_job) = None"
    by (simp add: one_normal_state_eq empty_state_def second_normal_job_def toy_defs)
  have e2: "scheduled_at second_normal_job \<le> 101"
    by (simp add: second_normal_job_def toy_defs)
  note e = inst [THEN conjunct2, THEN conjunct2, THEN conjunct1, THEN mp, OF conjI [OF e1 e2],
      of 0]
  have s1: "keyed_by_id deferred_state"
    unfolding deferred_state_def by (intro keyed_by_id_enqueue keyed_by_id_empty)
  have s2: "jobs deferred_state ''job-3'' = Some deferred_job"
    by (simp add: deferred_state_eq)
  have s3: "zscore (scheduled_queue deferred_state) ''job-3'' = Some 200"
    by (simp add: deferred_state_eq zscore_def)
  have s4: "(0::real) \<le> 200" "(200::real) \<le> 250" by simp_all
  note p = inst [THEN conjunct2, THEN conjunct2, THEN conjunct2, THEN conjunct1, THEN mp,
      OF conjI [OF s1 conjI [OF s2 conjI [OF s3 conjI [OF s4]]]]]
  have r1: "keyed_by_id retrying_state"
    unfolding retrying_state_def one_normal_state_def
    by (intro keyed_by_id_fail_job keyed_by_id_dequeue keyed_by_id_enqueue keyed_by_id_empty)
  have r2: "jobs retrying_state ''job-1'' = Some retrying_job"
    by (simp add: retrying_state_eq)
  have r3: "zscore (retry_queue retrying_state) ''job-1'' = Some 162"
    by (simp add: retrying_state_eq zscore_def)
  have r4: "(0::real) \<le> 162" "(162::real) \<le> 170" by simp_all
  note q = inst [THEN conjunct2, THEN conjunct2, THEN conjunct2, THEN conjunct2, THEN mp,
      OF conjI [OF r1 conjI [OF r2 conjI [OF r3 conjI [OF r4]]]]]
  show ?thesis
    by (intro conjI)
       (rule h1 h4 h5 h6 lt a b [THEN conjunct1] two_normal_state_dequeue c
          g1 g5 g6 tie ids b' [THEN conjunct1] same_second_state_dequeue c'
          e1 e2 e s2 s3 p [THEN conjunct1] p [THEN conjunct2]
          r2 r3 q [THEN conjunct1] q [THEN conjunct2])+
qed

text \<open>
  The claim as first stated fails for two jobs inserted within one second: their scores
  are equal, the sorted set then orders them by member, and \<open>dequeue\<close> returns the job
  that was enqueued first.
\<close>

theorem same_second_dequeues_first_inserted:
  "zscore (pending_queue (snd (enqueue (1002 / 10) 0 job_b empty_state))) ''job-b'' = Some 2100
   \<and> zscore (pending_queue (snd (enqueue (1002 / 10) 0 job_b empty_state))) ''job-a'' = None
   \<and> zscore (pending_queue same_second_state) ''job-b'' = Some 2100
   \<and> zscore (pending_queue same_second_state) ''job-a'' = Some 2100
   \<and> priority job_a = priority job_b
   \<and> map_option jid (fst (dequeue 101 same_second_state)) = Some ''job-b''
   \<and> zscore (pending_queue (snd (dequeue 101 same_second_state))) ''job-a'' = Some 2100"
  by (simp add: same_second_state_def job_a_def job_b_def toy_defs queue_defs store_defs Let_def)

subsection \<open>Rate limiter: unconfigured platforms\<close>

lemma limits_None:
  "platform \<notin> {PStr ''twitter'', PStr ''instagram'', PStr ''facebook'', PStr ''linkedin''}
    \<Longrightarrow> limits platform = None"
  by (simp add: limits_def)

text \<open>
  C10. For a platform that is none of twitter, instagram, facebook, linkedin,
  \<open>is_allowed\<close> returns true and leaves every counter as it was, \<open>get_reset_time\<close>
  returns none, and \<open>process_job\<close> on a job for that platform goes straight to the handler.
\<close>

theorem unconfigured_platform_not_throttled:
  assumes "platform \<notin> {PStr ''twitter'', PStr ''instagram'', PStr ''facebook'', PStr ''linkedin''}"
  shows "is_allowed now platform user_id kv = (True, kv)
       \<and> get_reset_time now platform user_id kv = None
       \<and> (payload_get (payload job) ''platform'' = Some platform
            \<longrightarrow> process_job job_handlers now tz jitter job s = run_handler job_handlers now tz jitter job s)"
proof -
  have l: "limits platform = None" using assms by (rule limits_None)
  have a: "is_allowed now platform user_id kv = (True, kv)" for user_id kv
    by (simp add: is_allowed_def l)
  have g: "get_reset_time now platform user_id kv = None"
    by (simp add: get_reset_time_def l)
  have p: "process_job job_handlers now tz jitter job s = run_handler job_handlers now tz jitter job s"
    if "payload_get (payload job) ''platform'' = Some platform"
    using that by (simp add: process_job_def a split: option.splits)
  from a g p show ?thesis by blast
qed

theorem unconfigured_platform_not_throttled_witness:
  "PStr ''mastodon'' \<notin> {PStr ''twitter'', PStr ''instagram'', PStr ''facebook'', PStr ''linkedin''}
   \<and> payload_get (payload (create_post_job toy_dumps toy_digest 100 ''job-1'' 7 ''mastodon'' 42 None NORMAL))
        ''platform'' = Some (PStr ''mastodon'')
   \<and> is_allowed 100 (PStr ''mastodon'') ''42'' (Map.empty(''rate_limit:twitter:42'' \<mapsto> (300, Some 500)))
        = (True, Map.empty(''rate_limit:twitter:42'' \<mapsto> (300, Some 500)))
   \<and> get_reset_time 100 (PStr ''mastodon'') ''42'' (Map.empty(''rate_limit:twitter:42'' \<mapsto> (300, Some 500)))
        = None
   \<and> process_job Map.empty 100 0 (1, 0) (create_post_job toy_dumps toy_digest 100 ''job-1'' 7 ''mastodon'' 42 None NORMAL)
        empty_state
      = run_handler Map.empty 100 0 (1, 0) (create_post_job toy_dumps toy_digest 100 ''job-1'' 7 ''mastodon'' 42 None NORMAL)
          empty_state"
proof -
  have h: "PStr ''mastodon'' \<notin> {PStr ''twitter'', PStr ''instagram'', PStr ''facebook'', PStr ''linkedin''}"
    by simp
  have p: "payload_get (payload (create_post_job toy_dumps toy_digest 100 ''job-1'' 7 ''mastodon'' 42 None NORMAL))
        ''platform'' = Some (PStr ''mastodon'')"
    by (simp add: create_post_job_def new_QueueJob_def payload_get_def)
  note t = unconfigured_platform_not_throttled [OF h, of 100 "''42''"
        "Map.empty(''rate_limit:twitter:42'' \<mapsto> (300, Some 500))"
        "create_post_job toy_dumps toy_digest 100 ''job-1'' 7 ''mastodon'' 42 None NORMAL"
        Map.empty 0 "(1, 0)" empty_state]
  show ?thesis
    by (intro conjI)
       (rule h p t [THEN conjunct1] t [THEN conjunct2, THEN conjunct1]
          t [THEN conjunct2, THEN conjunct2, THEN mp, OF p])+
qed

end
